theory Spec2Isabelle
  imports Main "HOL-Library.Word"
begin

unbundle bit_operations_syntax

section \<open>Machine integers and bytes\<close>

text \<open>
  The targets are 32-bit microcontrollers: \<open>uint32_t\<close>, \<open>size_t\<close> and \<open>uintptr_t\<close>
  are all 32 bits wide. Such values are natural numbers below \<open>2 ^ 32\<close>; every C operation
  that can wrap is written with its reduction modulo \<open>2 ^ 32\<close>. Flash contents and
  datagrams are lists of bytes.
\<close>

type_synonym byte = "8 word"

definition u32 :: "nat \<Rightarrow> nat" where
  "u32 n = n mod 2 ^ 32"

definition sub32 :: "nat \<Rightarrow> nat \<Rightarrow> nat" where
  \<comment> \<open>\<open>a - b\<close> on \<open>uint32_t\<close> operands\<close>
  "sub32 a b = (a + 2 ^ 32 - b mod 2 ^ 32) mod 2 ^ 32"

definition to_int :: "nat \<Rightarrow> int" where
  \<comment> \<open>conversion of a \<open>uint32_t\<close> to \<open>int\<close> (two's complement)\<close>
  "to_int n = (if n mod 2 ^ 32 < 2 ^ 31 then int (n mod 2 ^ 32) else int (n mod 2 ^ 32) - 2 ^ 32)"

definition to_u8 :: "int \<Rightarrow> nat" where
  \<comment> \<open>conversion of an \<open>int\<close> to \<open>uint8_t\<close>\<close>
  "to_u8 i = nat (i mod 256)"

definition ALIGN_UP :: "nat \<Rightarrow> nat \<Rightarrow> nat" where
  "ALIGN_UP num al = u32 (num + (al - 1)) - u32 (num + (al - 1)) mod al"

definition ALIGN_DOWN :: "nat \<Rightarrow> nat \<Rightarrow> nat" where
  "ALIGN_DOWN num al = num - num mod al"

definition ALIGN_OFFSET :: "nat \<Rightarrow> nat \<Rightarrow> nat" where
  "ALIGN_OFFSET num al = num mod al"

definition IS_ALIGNED :: "nat \<Rightarrow> nat \<Rightarrow> bool" where
  "IS_ALIGNED num al = (ALIGN_OFFSET num al = 0)"

definition FLASH_BUFFER_SIZE :: nat where
  "FLASH_BUFFER_SIZE = 256"

definition memcpy_at :: "byte list \<Rightarrow> nat \<Rightarrow> byte list \<Rightarrow> nat \<Rightarrow> byte list" where
  \<comment> \<open>\<open>memcpy(dst + pos, src, n)\<close> on a destination buffer held as a list\<close>
  "memcpy_at dst pos src n = take pos dst @ take n src @ drop (pos + n) dst"

section \<open>Build configuration\<close>

text \<open>
  The constants and macros that the two source files use but do not define
  (\<open>sysflash.h\<close>, the Kconfig values, the hook and swap interfaces) are the fields of one
  configuration record, so that every theorem holds for each build. \<open>hash_buf_aligned\<close>
  says whether the stack buffer \<open>hash\<close> of \<open>bs_set\<close> lies on a 4-byte boundary;
  \<open>IMAGE_HEADER_SIZE\<close> is \<open>sizeof(struct image_header)\<close>.
\<close>

record config =
  FLASH_DEVICE_INTERNAL_FLASH :: nat
  FLASH_SECTOR_SIZE :: nat
  FLASH_AREA_BOOTLOADER :: int
  FLASH_AREA_IMAGE_PRIMARY :: "int \<Rightarrow> int"
  FLASH_AREA_IMAGE_SECONDARY :: "int \<Rightarrow> int"
  FLASH_AREA_IMAGE_SCRATCH :: int
  BOOTLOADER_SIZE :: nat
  APPLICATION_PRIMARY_START_ADDRESS :: nat
  APPLICATION_SECONDARY_START_ADDRESS :: nat
  APPLICATION_SIZE :: nat
  SCRATCH_OFFSET :: nat
  SCRATCH_SIZE :: nat
  BOOT_IMAGE_NUMBER :: nat
  BOOT_MAX_ALIGN :: nat
  IMAGE_HASH_SIZE :: nat
  IMAGE_SHA_TLV :: nat
  IMAGE_MAGIC :: nat
  IMAGE_HEADER_SIZE :: nat
  hash_buf_aligned :: bool
  boot_serial_uploaded_hook :: "nat \<Rightarrow> nat \<Rightarrow> int"
  boot_set_pending_multi :: "nat \<Rightarrow> bool \<Rightarrow> int"

section \<open>The flash device and its raw driver\<close>

datatype event =
    RawRead nat nat
  | RawWrite nat "byte list"
  | RawErase nat nat
  | Progress nat
  | UploadedHook nat nat
  | SetPending nat bool

record world =
  mem :: "byte list"
  trace :: "event list"

definition emit :: "event \<Rightarrow> world \<Rightarrow> world" where
  "emit e w = w\<lparr>trace := trace w @ [e]\<rparr>"

text \<open>Projections of the trace: the hook and swap calls, and the raw writes.\<close>

fun is_control :: "event \<Rightarrow> bool" where
  "is_control (UploadedHook n sz) = True"
| "is_control (SetPending n p) = True"
| "is_control e = False"

definition control_events :: "world \<Rightarrow> event list" where
  "control_events w = filter is_control (trace w)"

fun is_raw_write :: "event \<Rightarrow> bool" where
  "is_raw_write (RawWrite addr bs) = True"
| "is_raw_write e = False"

definition raw_writes :: "world \<Rightarrow> event list" where
  "raw_writes w = filter is_raw_write (trace w)"

text \<open>
  Modelled from the spec: the raw storage driver (\<open>bootloader_flash_read\<close>,
  \<open>bootloader_flash_write\<close>, \<open>bootloader_flash_erase_range\<close>) is not under src/. The spec
  names it an external collaborator that requires a 4-byte-aligned address and a
  4-byte-aligned length, and whose erased byte is \<open>0xFF\<close>. Every call is recorded in the
  trace, also a failing one.
\<close>

definition bootloader_flash_read :: "nat \<Rightarrow> nat \<Rightarrow> world \<Rightarrow> byte list option \<times> world" where
  \<comment> \<open>Modelled from the spec: raw read of \<open>sz\<close> bytes at device address \<open>addr\<close>\<close>
  "bootloader_flash_read addr sz w =
     (if addr mod 4 = 0 \<and> sz mod 4 = 0 \<and> addr + sz \<le> length (mem w)
      then Some (take sz (drop addr (mem w))) else None,
      emit (RawRead addr sz) w)"

definition bootloader_flash_write :: "nat \<Rightarrow> byte list \<Rightarrow> world \<Rightarrow> bool \<times> world" where
  \<comment> \<open>Modelled from the spec: raw write of the bytes \<open>bs\<close> at device address \<open>addr\<close>\<close>
  "bootloader_flash_write addr bs w =
     (if addr mod 4 = 0 \<and> length bs mod 4 = 0 \<and> addr + length bs \<le> length (mem w)
      then (True, emit (RawWrite addr bs)
                    (w\<lparr>mem := take addr (mem w) @ bs @ drop (addr + length bs) (mem w)\<rparr>))
      else (False, emit (RawWrite addr bs) w))"

definition bootloader_flash_erase_range :: "nat \<Rightarrow> nat \<Rightarrow> world \<Rightarrow> bool \<times> world" where
  \<comment> \<open>Modelled from the spec: raw erase of \<open>len\<close> bytes at device address \<open>addr\<close>\<close>
  "bootloader_flash_erase_range addr len w =
     (if addr + len \<le> length (mem w)
      then (True, emit (RawErase addr len)
                    (w\<lparr>mem := take addr (mem w) @ replicate len 255 @ drop (addr + len) (mem w)\<rparr>))
      else (False, emit (RawErase addr len) w))"

section \<open>The flash-area registry (esp\_mcuboot.c)\<close>

record flash_area =
  fa_id :: nat
  fa_device_id :: nat
  fa_off :: nat
  fa_size :: nat

definition bootloader :: "config \<Rightarrow> flash_area" where
  "bootloader cfg = \<lparr>fa_id = to_u8 (FLASH_AREA_BOOTLOADER cfg),
     fa_device_id = FLASH_DEVICE_INTERNAL_FLASH cfg,
     fa_off = 4096, fa_size = BOOTLOADER_SIZE cfg\<rparr>"

definition primary_img0 :: "config \<Rightarrow> flash_area" where
  "primary_img0 cfg = \<lparr>fa_id = to_u8 (FLASH_AREA_IMAGE_PRIMARY cfg 0),
     fa_device_id = FLASH_DEVICE_INTERNAL_FLASH cfg,
     fa_off = APPLICATION_PRIMARY_START_ADDRESS cfg, fa_size = APPLICATION_SIZE cfg\<rparr>"

definition secondary_img0 :: "config \<Rightarrow> flash_area" where
  "secondary_img0 cfg = \<lparr>fa_id = to_u8 (FLASH_AREA_IMAGE_SECONDARY cfg 0),
     fa_device_id = FLASH_DEVICE_INTERNAL_FLASH cfg,
     fa_off = APPLICATION_SECONDARY_START_ADDRESS cfg, fa_size = APPLICATION_SIZE cfg\<rparr>"

definition scratch_img0 :: "config \<Rightarrow> flash_area" where
  "scratch_img0 cfg = \<lparr>fa_id = to_u8 (FLASH_AREA_IMAGE_SCRATCH cfg),
     fa_device_id = FLASH_DEVICE_INTERNAL_FLASH cfg,
     fa_off = SCRATCH_OFFSET cfg, fa_size = SCRATCH_SIZE cfg\<rparr>"

definition s_flash_areas :: "config \<Rightarrow> flash_area list" where
  "s_flash_areas cfg = [bootloader cfg, primary_img0 cfg, secondary_img0 cfg, scratch_img0 cfg]"

definition prv_lookup_flash_area :: "config \<Rightarrow> nat \<Rightarrow> flash_area option" where
  "prv_lookup_flash_area cfg ident = find (\<lambda>area. ident = fa_id area) (s_flash_areas cfg)"

definition flash_area_open :: "config \<Rightarrow> int \<Rightarrow> flash_area option" where
  \<comment> \<open>\<open>None\<close> is the return value -1; the parameter is converted to \<open>uint8_t\<close>\<close>
  "flash_area_open cfg ident = prv_lookup_flash_area cfg (to_u8 ident)"

definition flash_area_id_from_multi_image_slot :: "config \<Rightarrow> int \<Rightarrow> int \<Rightarrow> int" where
  "flash_area_id_from_multi_image_slot cfg image_index slot =
     (if slot = 0 then FLASH_AREA_IMAGE_PRIMARY cfg image_index
      else if slot = 1 then FLASH_AREA_IMAGE_SECONDARY cfg image_index
      else - 1)"

definition flash_area_align :: "flash_area \<Rightarrow> nat" where
  "flash_area_align area = 4"

definition flash_area_erased_val :: "flash_area \<Rightarrow> byte" where
  "flash_area_erased_val area = 255"

definition flash_area_get_size :: "flash_area \<Rightarrow> nat" where
  "flash_area_get_size area = fa_size area"

section \<open>Aligned flash I/O (esp\_mcuboot.c)\<close>

text \<open>
  The loop of \<open>aligned_flash_read\<close> that fetches what did not fit the first buffer. The
  destination is carried as a list; when a raw read fails the bytes copied so far stay.
\<close>

function read_remaining ::
  "nat \<Rightarrow> nat \<Rightarrow> nat \<Rightarrow> nat \<Rightarrow> byte list \<Rightarrow> world \<Rightarrow> bool \<times> byte list \<times> world" where
  "read_remaining aligned_addr offset bytes_read bytes_remaining dest w =
     (if bytes_remaining = 0 then (True, dest, w)
      else
        let bytes = min bytes_remaining FLASH_BUFFER_SIZE in
        (case bootloader_flash_read (u32 (aligned_addr + offset)) (ALIGN_UP bytes 4) w of
           (None, w') \<Rightarrow> (False, dest, w')
         | (Some read_data, w') \<Rightarrow>
             read_remaining aligned_addr (u32 (offset + bytes)) (u32 (bytes_read + bytes))
               (bytes_remaining - bytes) (memcpy_at dest bytes_read read_data bytes) w'))"
  by pat_completeness auto
termination
  by (relation "measure (\<lambda>(a, off, br, rem, dest, w). rem)")
     (auto simp: FLASH_BUFFER_SIZE_def)

declare read_remaining.simps [simp del]

definition aligned_flash_read ::
  "nat \<Rightarrow> bool \<Rightarrow> byte list \<Rightarrow> nat \<Rightarrow> world \<Rightarrow> bool \<times> byte list \<times> world" where
  \<comment> \<open>\<open>dest_aligned\<close> says whether the destination pointer is 4-byte aligned;
      \<open>dest\<close> is the destination's content before the call\<close>
  "aligned_flash_read addr dest_aligned dest sz w =
     (if IS_ALIGNED addr 4 \<and> dest_aligned \<and> IS_ALIGNED sz 4 then
        (case bootloader_flash_read addr sz w of
           (None, w') \<Rightarrow> (False, dest, w')
         | (Some read_data, w') \<Rightarrow> (True, memcpy_at dest 0 read_data sz, w'))
      else
        let aligned_addr = ALIGN_DOWN addr 4;
            addr_offset = ALIGN_OFFSET addr 4;
            bytes_remaining = sz;
            bytes = min (u32 (bytes_remaining + addr_offset)) FLASH_BUFFER_SIZE
        in
        (case bootloader_flash_read aligned_addr (ALIGN_UP bytes 4) w of
           (None, w') \<Rightarrow> (False, dest, w')
         | (Some read_data, w') \<Rightarrow>
             let bytes_read = sub32 bytes addr_offset;
                 dest' = memcpy_at dest 0 (drop addr_offset read_data) bytes_read
             in read_remaining aligned_addr bytes bytes_read
                  (sub32 bytes_remaining bytes_read) dest' w'))"

definition flash_area_read ::
  "config \<Rightarrow> flash_area \<Rightarrow> nat \<Rightarrow> bool \<Rightarrow> byte list \<Rightarrow> nat \<Rightarrow> world \<Rightarrow> int \<times> byte list \<times> world" where
  "flash_area_read cfg fa off dst_aligned dst len w =
     (if fa_device_id fa \<noteq> FLASH_DEVICE_INTERNAL_FLASH cfg then (- 1, dst, w)
      else
        let end_offset = u32 (off + len) in
        if end_offset > fa_size fa then (- 1, dst, w)
        else
          (case aligned_flash_read (u32 (fa_off fa + off)) dst_aligned dst len w of
             (success, dst', w') \<Rightarrow> (if \<not> success then - 1 else 0, dst', w')))"

definition flash_area_write ::
  "config \<Rightarrow> flash_area \<Rightarrow> nat \<Rightarrow> byte list \<Rightarrow> nat \<Rightarrow> world \<Rightarrow> int \<times> world" where
  \<comment> \<open>\<open>src\<close> is the source buffer, of which the first \<open>len\<close> bytes are written\<close>
  "flash_area_write cfg fa off src len w =
     (if fa_device_id fa \<noteq> FLASH_DEVICE_INTERNAL_FLASH cfg then (- 1, w)
      else
        let end_offset = u32 (off + len) in
        if end_offset > fa_size fa then (- 1, w)
        else
          let start_addr = u32 (fa_off fa + off);
              (write_ptr, write_len, w1) =
                (if len < 4 then
                   (case flash_area_read cfg fa start_addr True [0, 0, 0, 0] 4 w of
                      (rc, write_data, w') \<Rightarrow> (memcpy_at write_data 0 src len, 4, w'))
                 else (src, len, w))
          in
          (case bootloader_flash_write start_addr (take write_len write_ptr) w1 of
             (ok, w2) \<Rightarrow> (if \<not> ok then - 1 else 0, w2)))"

definition flash_area_erase :: "config \<Rightarrow> flash_area \<Rightarrow> nat \<Rightarrow> nat \<Rightarrow> world \<Rightarrow> int \<times> world" where
  "flash_area_erase cfg fa off len w =
     (if fa_device_id fa \<noteq> FLASH_DEVICE_INTERNAL_FLASH cfg then (- 1, w)
      else if len mod FLASH_SECTOR_SIZE cfg \<noteq> 0 \<or> off mod FLASH_SECTOR_SIZE cfg \<noteq> 0 then (- 1, w)
      else
        let start_addr = u32 (fa_off fa + off) in
        (case bootloader_flash_erase_range start_addr len w of
           (ok, w') \<Rightarrow> (if \<not> ok then - 1 else 0, w')))"

section \<open>The upload state machine (boot\_udp.c)\<close>

definition MGMT_ERR_OK :: int where "MGMT_ERR_OK = 0"
definition MGMT_ERR_ENOMEM :: int where "MGMT_ERR_ENOMEM = 2"
definition MGMT_ERR_EINVAL :: int where "MGMT_ERR_EINVAL = 3"
definition MGMT_ERR_ENOENT :: int where "MGMT_ERR_ENOENT = 5"
definition MGMT_ERR_ENOTSUP :: int where "MGMT_ERR_ENOTSUP = 8"

definition UINT_MAX :: nat where "UINT_MAX = 2 ^ 32 - 1"
definition SIZE_MAX :: nat where "SIZE_MAX = 2 ^ 32 - 1"

text \<open>
  The payload of an upload request as the CBOR decoding loop leaves it: each of the four
  recognised keys is present with its value or absent. The zcbor decoder is a library
  outside src/; the handler is modelled from the decoded fields on. A payload that is not
  a CBOR map is the request \<open>None\<close>.

  The locals \<open>img_num_tmp\<close>, \<open>img_size_tmp\<close> and \<open>img_chunk_off\<close> are initialised to
  \<open>UINT_MAX\<close> and \<open>SIZE_MAX\<close>; \<open>img_chunk_data\<close> is not initialised, so without a
  \<open>data\<close> key the handler works on what the stack holds. That content is the argument
  \<open>img_chunk_data0\<close> of \<open>bs_upload\<close>: \<open>None\<close> when the \<open>value\<close> pointer found there is
  null, otherwise the bytes it designates.
\<close>

record upload_req =
  rq_image :: "nat option"
  rq_data :: "byte list option"
  rq_len :: "nat option"
  rq_off :: "nat option"

text \<open>The three \<open>static\<close> variables of \<open>bs_upload\<close>; C initialises them to zero.\<close>

record upload_state =
  img_num :: nat
  img_size :: nat
  curr_off :: nat

definition upload_init :: upload_state where
  "upload_init = \<lparr>img_num = 0, img_size = 0, curr_off = 0\<rparr>"

record upload_reply =
  reply_rc :: int
  reply_off :: "nat option"

text \<open>
  Two ways in which the handler does not return: the division by \<open>img_size = 0\<close>, and
  a \<open>memset\<close> of \<open>proccess_bar_print\<close> whose length is a negative \<open>int\<close> converted to
  \<open>size_t\<close>, which runs over the 256 bytes of \<open>sbuf\<close>.
\<close>

datatype fault = DivideByZero | MemsetOverrun

type_synonym upload_result = "fault + (upload_reply \<times> upload_state \<times> world)"

definition upload_out :: "int \<Rightarrow> upload_state \<Rightarrow> world \<Rightarrow> upload_result" where
  \<comment> \<open>label \<open>out\<close>: the reply carries \<open>off\<close> only when \<open>rc\<close> is 0\<close>
  "upload_out rc s w =
     Inr (\<lparr>reply_rc = rc, reply_off = (if rc = 0 then Some (curr_off s) else None)\<rparr>, s, w)"

definition upload_finish :: "config \<Rightarrow> upload_state \<Rightarrow> world \<Rightarrow> upload_result" where
  \<comment> \<open>lines 477--486: advance is done; the image may be complete\<close>
  "upload_finish cfg s w =
     (if curr_off s = img_size s then
        let rc = boot_serial_uploaded_hook cfg (img_num s) (img_size s);
            w1 = emit (UploadedHook (img_num s) (img_size s)) w
        in if rc \<noteq> 0 then upload_out rc s w1
           else upload_out (boot_set_pending_multi cfg 0 True) s (emit (SetPending 0 True) w1)
      else upload_out 0 s w)"

definition proccess_bar_print :: "int \<Rightarrow> int \<Rightarrow> world \<Rightarrow> fault + world" where
  \<comment> \<open>\<open>memset(sbuf + offset, '#', idx)\<close>, then \<open>memset(sbuf + offset, ' ', total - idx)\<close>
      when \<open>idx\<close> differs from \<open>total\<close> (here \<open>tot\<close>); with \<open>0 \<le> idx \<le> total = 100\<close> the
      bar of 28 + 100 characters and its tail fit the buffer\<close>
  "proccess_bar_print idx tot w =
     (if idx < 0 \<or> tot - idx < 0 then Inl MemsetOverrun
      else Inr (emit (Progress (nat idx)) w))"

definition upload_flash ::
  "config \<Rightarrow> flash_area \<Rightarrow> byte list \<Rightarrow> upload_state \<Rightarrow> world \<Rightarrow> fault + (int \<times> nat \<times> world)" where
  \<comment> \<open>lines 457--475: progress line, the aligned write and the padded tail write;
      the result is \<open>rc\<close>, the number of bytes committed and the device\<close>
  "upload_flash cfg fap img_chunk s w =
     (let len0 = length img_chunk;
          rem0 = len0 mod flash_area_align fap;
          img_chunk_len = len0 - rem0;
          rem_bytes = (if u32 (curr_off s + img_chunk_len + rem0) < img_size s then 0 else rem0)
      in
      if img_size s = 0 then Inl DivideByZero
      else
        let idx_old = to_int (u32 (curr_off s * 100) div img_size s);
            idx = to_int (u32 (u32 (curr_off s + img_chunk_len) * 100) div img_size s)
        in
        (case (if idx_old \<noteq> idx then proccess_bar_print idx 100 w else Inr w) of
           Inl f \<Rightarrow> Inl f
         | Inr w0 \<Rightarrow>
             let (rc1, w1) = flash_area_write cfg fap (curr_off s) img_chunk img_chunk_len w0;
                 (rc2, w2) =
                   (if rc1 = 0 \<and> rem_bytes \<noteq> 0 then
                      let wbs_aligned =
                            memcpy_at (replicate (BOOT_MAX_ALIGN cfg) (flash_area_erased_val fap))
                              0 (drop img_chunk_len img_chunk) rem_bytes
                      in flash_area_write cfg fap (u32 (curr_off s + img_chunk_len)) wbs_aligned
                           (flash_area_align fap) w1
                    else (rc1, w1))
             in Inr (rc2, img_chunk_len + rem_bytes, w2)))"

definition upload_write ::
  "config \<Rightarrow> flash_area \<Rightarrow> byte list \<Rightarrow> upload_state \<Rightarrow> world \<Rightarrow> upload_result" where
  \<comment> \<open>lines 457--490: the write of one accepted chunk and what follows it\<close>
  "upload_write cfg fap img_chunk s w =
     (case upload_flash cfg fap img_chunk s w of
        Inl f \<Rightarrow> Inl f
      | Inr (rc, committed, w2) \<Rightarrow>
          if rc = 0 then upload_finish cfg (s\<lparr>curr_off := u32 (curr_off s + committed)\<rparr>) w2
          else upload_out MGMT_ERR_EINVAL s w2)"

definition upload_target :: "upload_state \<Rightarrow> nat \<Rightarrow> nat \<Rightarrow> upload_state" where
  \<comment> \<open>lines 427--433: a chunk at offset 0 selects the image\<close>
  "upload_target s img_chunk_off img_num_tmp =
     (if img_chunk_off = 0
      then s\<lparr>img_num := (if img_num_tmp \<noteq> UINT_MAX then img_num_tmp else 0)\<rparr>
      else s)"

definition upload_first ::
  "config \<Rightarrow> flash_area \<Rightarrow> byte list \<Rightarrow> nat \<Rightarrow> upload_state \<Rightarrow> world \<Rightarrow> upload_result" where
  \<comment> \<open>lines 439--449 and what follows: the branch \<open>img_chunk_off == 0\<close>\<close>
  "upload_first cfg fap img_chunk img_size_tmp s1 w =
     (let area_size = flash_area_get_size fap;
          s2 = s1\<lparr>curr_off := 0\<rparr>
      in
      if img_size_tmp > area_size then upload_out MGMT_ERR_EINVAL s2 w
      else
        (case flash_area_erase cfg fap 0 area_size w of
           (rc, w') \<Rightarrow>
             if rc \<noteq> 0 then upload_out MGMT_ERR_EINVAL s2 w'
             else upload_write cfg fap img_chunk (s2\<lparr>img_size := img_size_tmp\<rparr>) w'))"

definition upload_next ::
  "config \<Rightarrow> flash_area \<Rightarrow> byte list \<Rightarrow> nat \<Rightarrow> upload_state \<Rightarrow> world \<Rightarrow> upload_result" where
  \<comment> \<open>lines 450--456 and what follows: the two \<open>else if\<close> branches\<close>
  "upload_next cfg fap img_chunk img_chunk_off s1 w =
     (if img_chunk_off \<noteq> curr_off s1 then upload_out 0 s1 w
      else if u32 (curr_off s1 + length img_chunk) > img_size s1
        then upload_out MGMT_ERR_EINVAL s1 w
      else upload_write cfg fap img_chunk s1 w)"

definition bs_upload ::
  "config \<Rightarrow> byte list option \<Rightarrow> upload_req option \<Rightarrow> upload_state \<Rightarrow> world \<Rightarrow>
     upload_result" where
  "bs_upload cfg img_chunk_data0 rq s w =
     (case rq of
        None \<Rightarrow> upload_out MGMT_ERR_EINVAL s w
      | Some r \<Rightarrow>
          let img_num_tmp = (case rq_image r of None \<Rightarrow> UINT_MAX | Some v \<Rightarrow> v);
              img_size_tmp = (case rq_len r of None \<Rightarrow> SIZE_MAX | Some v \<Rightarrow> v);
              img_chunk_off = (case rq_off r of None \<Rightarrow> SIZE_MAX | Some v \<Rightarrow> v)
          in
          (case (case rq_data r of None \<Rightarrow> img_chunk_data0 | Some d \<Rightarrow> Some d) of
             None \<Rightarrow> upload_out MGMT_ERR_EINVAL s w
           | Some img_chunk \<Rightarrow>
               if img_chunk_off = SIZE_MAX then upload_out MGMT_ERR_EINVAL s w
               else
                 let s1 = upload_target s img_chunk_off img_num_tmp in
                 (case flash_area_open cfg
                         (flash_area_id_from_multi_image_slot cfg (to_int (img_num s1)) 1) of
                    None \<Rightarrow> upload_out MGMT_ERR_EINVAL s1 w
                  | Some fap \<Rightarrow>
                      if img_chunk_off = 0
                      then upload_first cfg fap img_chunk img_size_tmp s1 w
                      else upload_next cfg fap img_chunk img_chunk_off s1 w)))"

text \<open>
  A session of upload requests, each with the stack content it meets, each handled to
  completion before the next.
\<close>

fun upload_run ::
  "config \<Rightarrow> (byte list option \<times> upload_req option) list \<Rightarrow> upload_state \<Rightarrow> world \<Rightarrow>
     fault + (upload_state \<times> world)" where
  "upload_run cfg [] s w = Inr (s, w)"
| "upload_run cfg ((img_chunk_data0, rq) # rqs) s w =
     (case bs_upload cfg img_chunk_data0 rq s w of
        Inl f \<Rightarrow> Inl f
      | Inr (rp, s', w') \<Rightarrow> upload_run cfg rqs s' w')"

section \<open>Setting an image pending by hash (boot\_udp.c)\<close>

text \<open>
  The TLV iterator, the header hook and the image validator are external. For the
  secondary slot of each image index a \<open>slot_probe\<close> holds what they return there:
  the header that \<open>boot_read_image_header_hook\<close> supplies (\<open>None\<close> when it returns
  \<open>BOOT_HOOK_REGULAR\<close>, as it does when no hook is installed, and the header is read from
  flash), whether the check hook or \<open>bootutil_img_validate\<close> ends with \<open>FIH_SUCCESS\<close>,
  the return code of \<open>bootutil_tlv_iter_begin\<close>, and the successive results of
  \<open>bootutil_tlv_iter_next\<close> (the end of the list is its return code 1). The flash reads
  that the validator and the iterator make themselves are not in the trace.
\<close>

datatype tlv_step = TlvError | TlvEntry nat nat nat

record slot_probe =
  hook_hdr :: "byte list option"
  validate_ok :: bool
  tlv_begin_rc :: int
  tlv_steps :: "tlv_step list"

fun tlv_scan ::
  "config \<Rightarrow> flash_area \<Rightarrow> tlv_step list \<Rightarrow> byte list \<Rightarrow> world \<Rightarrow> int \<times> byte list \<times> world" where
  "tlv_scan cfg fap [] hash w = (- 1, hash, w)"
| "tlv_scan cfg fap (TlvError # rest) hash w = (- 1, hash, w)"
| "tlv_scan cfg fap (TlvEntry offset len ty # rest) hash w =
     (if ty = IMAGE_SHA_TLV cfg then
        if len \<noteq> IMAGE_HASH_SIZE cfg then (- 1, hash, w)
        else
          (case flash_area_read cfg fap offset (hash_buf_aligned cfg) hash len w of
             (rc, hash', w') \<Rightarrow> (if rc \<noteq> 0 then - 1 else 0, hash', w'))
      else tlv_scan cfg fap rest hash w)"

definition boot_serial_get_hash ::
  "config \<Rightarrow> slot_probe \<Rightarrow> flash_area \<Rightarrow> byte list \<Rightarrow> world \<Rightarrow> int \<times> byte list \<times> world" where
  "boot_serial_get_hash cfg pr fap hash w =
     (if tlv_begin_rc pr \<noteq> 0 then (- 1, hash, w)
      else tlv_scan cfg fap (tlv_steps pr) hash w)"

text \<open>
  The decoded payload of a set request: each of the keys \<open>confirm\<close> and \<open>hash\<close> is
  present with its value or absent. The locals \<open>confirm\<close>, \<open>img_hash\<close>, \<open>hash\<close> and
  \<open>hdr\<close> are not initialised; \<open>set_stack\<close> is what the stack holds for them on entry
  (for \<open>img_hash\<close> the bytes that its \<open>value\<close> and \<open>len\<close> designate, for \<open>hdr\<close> the
  content met by each turn of the loop).
\<close>

record set_req =
  sq_confirm :: "bool option"
  sq_hash :: "byte list option"

record set_stack =
  stk_confirm :: bool
  stk_img_hash :: "byte list"
  stk_hash :: "byte list"
  stk_hdr :: "nat \<Rightarrow> byte list"

definition ih_magic :: "byte list \<Rightarrow> nat" where
  \<comment> \<open>the field \<open>ih_magic\<close>, the first 32-bit word of the header, little-endian\<close>
  "ih_magic hdr =
     unat (hdr ! 0) + 256 * unat (hdr ! 1) + 65536 * unat (hdr ! 2) + 16777216 * unat (hdr ! 3)"

definition read_image_header ::
  "config \<Rightarrow> slot_probe \<Rightarrow> flash_area \<Rightarrow> byte list \<Rightarrow> world \<Rightarrow> byte list \<times> world" where
  \<comment> \<open>lines 304--309: the hook, or the read of the header at area offset 0, whose return
      code is ignored\<close>
  "read_image_header cfg pr fap hdr w =
     (case hook_hdr pr of
        Some h \<Rightarrow> (h, w)
      | None \<Rightarrow>
          (case flash_area_read cfg fap 0 True hdr (IMAGE_HEADER_SIZE cfg) w of
             (rc, hdr', w') \<Rightarrow> (hdr', w')))"

datatype set_reply = SetRc int | SetImageList

text \<open>The \<open>for\<close> loop of \<open>bs_set\<close> over the image indices still to visit.\<close>

fun set_scan ::
  "config \<Rightarrow> (nat \<Rightarrow> slot_probe) \<Rightarrow> (nat \<Rightarrow> byte list) \<Rightarrow> byte list \<Rightarrow> byte list \<Rightarrow>
     nat list \<Rightarrow> world \<Rightarrow> nat option \<times> world" where
  "set_scan cfg probe hdr0 img_hash hash [] w = (None, w)"
| "set_scan cfg probe hdr0 img_hash hash (image_index # rest) w =
     (case flash_area_open cfg (flash_area_id_from_multi_image_slot cfg (int image_index) 1) of
        None \<Rightarrow> set_scan cfg probe hdr0 img_hash hash rest w
      | Some fap \<Rightarrow>
          (case read_image_header cfg (probe image_index) fap (hdr0 image_index) w of
             (hdr, w0) \<Rightarrow>
               if ih_magic hdr = IMAGE_MAGIC cfg \<and> \<not> validate_ok (probe image_index)
               then set_scan cfg probe hdr0 img_hash hash rest w0
               else
                 (case boot_serial_get_hash cfg (probe image_index) fap hash w0 of
                    (rc, hash', w') \<Rightarrow>
                      if rc = 0 \<and>
                         take (IMAGE_HASH_SIZE cfg) hash' = take (IMAGE_HASH_SIZE cfg) img_hash
                      then (Some image_index, w')
                      else set_scan cfg probe hdr0 img_hash hash' rest w')))"

definition set_commit :: "config \<Rightarrow> nat \<Rightarrow> bool \<Rightarrow> world \<Rightarrow> set_reply \<times> world" where
  \<comment> \<open>line 340 and label \<open>out\<close>: a successful call is answered with the image list\<close>
  "set_commit cfg image_index confirm w =
     (let rc = boot_set_pending_multi cfg image_index confirm;
          w' = emit (SetPending image_index confirm) w
      in (if rc = 0 then SetImageList else SetRc rc, w'))"

definition bs_set ::
  "config \<Rightarrow> (nat \<Rightarrow> slot_probe) \<Rightarrow> set_stack \<Rightarrow> set_req option \<Rightarrow> world \<Rightarrow>
     set_reply \<times> world" where
  "bs_set cfg probe stk rq w =
     (case rq of
        None \<Rightarrow> (SetRc MGMT_ERR_EINVAL, w)
      | Some r \<Rightarrow>
          let confirm = (case sq_confirm r of None \<Rightarrow> stk_confirm stk | Some b \<Rightarrow> b);
              img_hash = (case sq_hash r of None \<Rightarrow> stk_img_hash stk | Some h \<Rightarrow> h);
              n = length img_hash
          in
          if (n \<noteq> IMAGE_HASH_SIZE cfg \<and> n \<noteq> 0) \<or> (n = 0 \<and> BOOT_IMAGE_NUMBER cfg > 1)
          then (SetRc MGMT_ERR_EINVAL, w)
          else if n \<noteq> 0 then
            (case set_scan cfg probe (stk_hdr stk) img_hash (stk_hash stk)
                    [0..<BOOT_IMAGE_NUMBER cfg] w of
               (None, w') \<Rightarrow> (SetRc MGMT_ERR_ENOENT, w')
             | (Some image_index, w') \<Rightarrow> set_commit cfg image_index confirm w')
          else set_commit cfg 0 confirm w)"

section \<open>SMP framing and dispatch (boot\_udp.c)\<close>

text \<open>
  A datagram is the list of its bytes. The packed header \<open>struct nmgr_hdr\<close> occupies the
  first eight: byte 0 holds \<open>nh_op\<close> in its three low bits, byte 1 the flags, bytes 2--3
  \<open>nh_len\<close>, bytes 4--5 \<open>nh_group\<close>, byte 6 \<open>nh_seq\<close>, byte 7 \<open>nh_id\<close>. The host is
  little-endian, so a 16-bit field is loaded low byte first and \<open>ntohs\<close>/\<open>htons\<close> swap
  its two bytes.
\<close>

definition NMGR_OP_READ :: nat where "NMGR_OP_READ = 0"
definition NMGR_OP_WRITE :: nat where "NMGR_OP_WRITE = 2"
definition MGMT_GROUP_ID_OS :: nat where "MGMT_GROUP_ID_OS = 0"
definition MGMT_GROUP_ID_IMAGE :: nat where "MGMT_GROUP_ID_IMAGE = 1"
definition NMGR_ID_RESET :: nat where "NMGR_ID_RESET = 5"
definition NMGR_ID_PARAMS :: nat where "NMGR_ID_PARAMS = 6"
definition NMGR_ID_STATE :: nat where "NMGR_ID_STATE = 0"
definition NMGR_ID_UPLOAD :: nat where "NMGR_ID_UPLOAD = 1"
definition NMGR_ID_SLOT_INFO :: nat where "NMGR_ID_SLOT_INFO = 6"

definition get16 :: "byte list \<Rightarrow> nat \<Rightarrow> nat" where
  "get16 buf i = unat (buf ! i) + 256 * unat (buf ! (i + 1))"

definition put16 :: "byte list \<Rightarrow> nat \<Rightarrow> nat \<Rightarrow> byte list" where
  "put16 buf i v = buf[i := of_nat (v mod 256), i + 1 := of_nat (v div 256 mod 256)]"

definition ntohs :: "nat \<Rightarrow> nat" where
  "ntohs v = (v mod 256) * 256 + v div 256 mod 256"

definition htons :: "nat \<Rightarrow> nat" where
  "htons v = (v mod 256) * 256 + v div 256 mod 256"

definition nh_op :: "byte list \<Rightarrow> nat" where
  "nh_op buf = unat (buf ! 0 AND 7)"

definition nh_len :: "byte list \<Rightarrow> nat" where
  "nh_len buf = get16 buf 2"

definition nh_group :: "byte list \<Rightarrow> nat" where
  "nh_group buf = get16 buf 4"

definition nh_seq :: "byte list \<Rightarrow> byte" where
  "nh_seq buf = buf ! 6"

definition nh_id :: "byte list \<Rightarrow> nat" where
  "nh_id buf = unat (buf ! 7)"

text \<open>
  What \<open>boot_grp_procces\<close> calls, with the arguments it passes. The handlers take the
  payload \<open>buf + 8\<close> of length \<open>len - 8\<close>; the sequence number stays in the header of
  \<open>udp_buffer\<close>, from where the reply is sent.
\<close>

datatype call =
    Call_bs_list_set nat "byte list"
  | Call_bs_upload "byte list"
  | Call_bs_slot_info nat "byte list"
  | Call_bs_reset "byte list"
  | Call_bs_params nat "byte list"
  | Call_bs_rc_rsp int

definition boot_grp_switch :: "nat \<Rightarrow> nat \<Rightarrow> nat \<Rightarrow> byte list \<Rightarrow> call" where
  \<comment> \<open>the two nested \<open>switch\<close> statements on \<open>nh_group\<close> and \<open>nh_id\<close>\<close>
  "boot_grp_switch grp ident opc payload =
     (if grp = MGMT_GROUP_ID_IMAGE then
        (if ident = NMGR_ID_STATE then Call_bs_list_set opc payload
         else if ident = NMGR_ID_UPLOAD then Call_bs_upload payload
         else if ident = NMGR_ID_SLOT_INFO then Call_bs_slot_info opc payload
         else Call_bs_rc_rsp MGMT_ERR_ENOTSUP)
      else if grp = MGMT_GROUP_ID_OS then
        (if ident = NMGR_ID_RESET then Call_bs_reset payload
         else if ident = NMGR_ID_PARAMS then Call_bs_params opc payload
         else Call_bs_rc_rsp MGMT_ERR_ENOTSUP)
      else Call_bs_rc_rsp MGMT_ERR_ENOTSUP)"

definition boot_grp_route :: "byte list \<Rightarrow> (byte list \<times> call) option" where
  \<comment> \<open>\<open>None\<close>: the function returns at line 625; otherwise the buffer with \<open>nh_group\<close>
      in host order and the call made\<close>
  "boot_grp_route buf =
     (let len = length buf in
      if len < 8 then None
      else if nh_op buf \<noteq> NMGR_OP_READ \<and> nh_op buf \<noteq> NMGR_OP_WRITE then None
      else if ntohs (nh_len buf) < len - 8 then None
      else
        let udp_buffer = put16 buf 4 (ntohs (nh_group buf)) in
        Some (udp_buffer,
              boot_grp_switch (nh_group udp_buffer) (nh_id udp_buffer) (nh_op udp_buffer)
                (drop 8 udp_buffer)))"

definition boot_grp_send :: "byte list \<Rightarrow> byte list \<Rightarrow> byte list" where
  \<comment> \<open>\<open>obuf\<close> is what the handler encoded into \<open>bs_obuf\<close>; the result is the datagram
      given to \<open>zsock_sendto\<close>\<close>
  "boot_grp_send udp_buffer obuf =
     (let len = length obuf;
          b1 = put16 udp_buffer 2 (htons (len mod 65536));
          b2 = put16 b1 4 (htons (nh_group b1));
          b3 = memcpy_at b2 8 obuf len
      in take (len + 8) b3)"

definition bs_reset :: "byte list \<Rightarrow> byte list" where
  \<comment> \<open>the acknowledgement sent before the reboot\<close>
  "bs_reset udp_buffer =
     (let b1 = put16 udp_buffer 2 0;
          b2 = put16 b1 4 (htons (nh_group b1))
      in take 8 b2)"

definition boot_grp_procces :: "(call \<Rightarrow> byte list) \<Rightarrow> byte list \<Rightarrow> byte list option" where
  \<comment> \<open>\<open>encoded c\<close> is the CBOR payload that the handler called as \<open>c\<close> leaves in
      \<open>bs_obuf\<close>; the result is the datagram sent, if any\<close>
  "boot_grp_procces encoded buf =
     (case boot_grp_route buf of
        None \<Rightarrow> None
      | Some (udp_buffer, Call_bs_reset payload) \<Rightarrow> Some (bs_reset udp_buffer)
      | Some (udp_buffer, c) \<Rightarrow> Some (boot_grp_send udp_buffer (encoded c)))"

text \<open>
  The receive rule in the words of the specification, for comparison with
  \<open>boot_grp_route\<close>: a datagram is dropped when it is shorter than 8 bytes, or its
  operation is neither READ nor WRITE, or \<open>header.length\<close> exceeds the datagram length
  minus 8.
\<close>

definition spec_drops :: "byte list \<Rightarrow> bool" where
  "spec_drops buf =
     (length buf < 8 \<or> (nh_op buf \<noteq> 0 \<and> nh_op buf \<noteq> 2) \<or> ntohs (nh_len buf) > length buf - 8)"

section \<open>A concrete build and device\<close>

text \<open>
  A small build used to run the model: 4 KiB sectors, the bootloader at \<open>0x1000\<close>, the
  primary slot at \<open>0x2000\<close>, the secondary slot at \<open>0x3000\<close> and the scratch area at
  \<open>0x4000\<close>, each of one sector, on a device of \<open>0x5000\<close> bytes; one image with
  SHA-256 hashes and the image magic \<open>0x96f3b83d\<close>; no hook installed (the hook call
  yields its default 0) and a swap layer that accepts.
\<close>

definition demo_cfg :: config where
  "demo_cfg = \<lparr>FLASH_DEVICE_INTERNAL_FLASH = 127, FLASH_SECTOR_SIZE = 4096,
     FLASH_AREA_BOOTLOADER = 0, FLASH_AREA_IMAGE_PRIMARY = (\<lambda>i. 1),
     FLASH_AREA_IMAGE_SECONDARY = (\<lambda>i. 2), FLASH_AREA_IMAGE_SCRATCH = 3,
     BOOTLOADER_SIZE = 4096, APPLICATION_PRIMARY_START_ADDRESS = 8192,
     APPLICATION_SECONDARY_START_ADDRESS = 12288, APPLICATION_SIZE = 4096,
     SCRATCH_OFFSET = 16384, SCRATCH_SIZE = 4096, BOOT_IMAGE_NUMBER = 1, BOOT_MAX_ALIGN = 8,
     IMAGE_HASH_SIZE = 32, IMAGE_SHA_TLV = 16, IMAGE_MAGIC = 2532554813,
     IMAGE_HEADER_SIZE = 32, hash_buf_aligned = True,
     boot_serial_uploaded_hook = (\<lambda>n sz. 0), boot_set_pending_multi = (\<lambda>n p. 0)\<rparr>"

definition demo_world :: world where
  "demo_world = \<lparr>mem = replicate 20480 0, trace = []\<rparr>"

section \<open>Unfolding rules\<close>

lemmas int_defs = u32_def sub32_def to_int_def to_u8_def UINT_MAX_def SIZE_MAX_def
  ALIGN_UP_def ALIGN_DOWN_def ALIGN_OFFSET_def IS_ALIGNED_def FLASH_BUFFER_SIZE_def

lemmas registry_defs = flash_area_open_def flash_area_id_from_multi_image_slot_def
  prv_lookup_flash_area_def s_flash_areas_def bootloader_def primary_img0_def
  secondary_img0_def scratch_img0_def flash_area_get_size_def flash_area_align_def
  flash_area_erased_val_def

lemmas raw_defs = bootloader_flash_read_def bootloader_flash_write_def
  bootloader_flash_erase_range_def emit_def memcpy_at_def

lemmas fio_defs = flash_area_read_def flash_area_write_def flash_area_erase_def
  aligned_flash_read_def

lemmas upload_defs = bs_upload_def upload_target_def upload_first_def upload_next_def
  upload_write_def upload_flash_def proccess_bar_print_def upload_finish_def upload_out_def
  upload_init_def MGMT_ERR_EINVAL_def

lemmas demo_defs = demo_cfg_def demo_world_def

lemma demo_open_secondary:
  "flash_area_open demo_cfg (flash_area_id_from_multi_image_slot demo_cfg i 1) =
     Some (secondary_img0 demo_cfg)"
  by (simp add: registry_defs int_defs demo_cfg_def)

section \<open>The upload cursor\<close>

text \<open>
  Claim C2 says that after every upload request \<open>curr_off \<le> img_size\<close>, also for a chunk
  at \<open>off = 0\<close> longer than the declared size. The check \<open>curr_off + img_chunk_len >
  img_size\<close> of line 453 guards only the branch \<open>off = curr_off\<close>; the branch \<open>off = 0\<close>
  sets \<open>img_size\<close> and writes the whole chunk. A first request declaring 1000 bytes and
  carrying 1004 is written in full and leaves the cursor at 1004 (the progress index is
  100, so the progress bar is printed without harm).
\<close>

theorem bs_upload_first_chunk_overruns_img_size:
  "bs_upload demo_cfg img_chunk_data0
     (Some \<lparr>rq_image = None, rq_data = Some (replicate 1004 171), rq_len = Some 1000,
            rq_off = Some 0\<rparr>)
     upload_init demo_world =
   Inr (\<lparr>reply_rc = 0, reply_off = Some 1004\<rparr>,
        \<lparr>img_num = 0, img_size = 1000, curr_off = 1004\<rparr>,
        \<lparr>mem = replicate 12288 0 @ replicate 1004 171 @ replicate 3092 255 @ replicate 4096 0,
         trace = [RawErase 12288 4096, Progress 100, RawWrite 12288 (replicate 1004 171)]\<rparr>)"
  by (simp add: upload_defs demo_open_secondary fio_defs raw_defs int_defs registry_defs
        demo_defs Let_def)

text \<open>
  Claim C5, as stated, promises the reply \<open>{rc: 0, off: curr_off}\<close> for every request
  whose \<open>off\<close> is present, nonzero and different from the cursor. The value \<open>SIZE_MAX\<close>
  (\<open>0xFFFFFFFF\<close>) is the initial value of \<open>img_chunk_off\<close>, by which line 424 recognises
  a missing key: a request that carries \<open>data\<close> and \<open>off = SIZE_MAX\<close> is answered
  \<open>{rc: 3}\<close>.
\<close>

theorem bs_upload_replay_off_sentinel_counterexample:
  "bs_upload demo_cfg None
     (Some \<lparr>rq_image = None, rq_data = Some [1, 2, 3, 4], rq_len = None,
            rq_off = Some 4294967295\<rparr>)
     upload_init demo_world =
   Inr (\<lparr>reply_rc = 3, reply_off = None\<rparr>, upload_init, demo_world)"
  by (simp add: upload_defs SIZE_MAX_def)

text \<open>
  Claim C5, amended: for every upload request whose \<open>off\<close> is present, nonzero and
  different from \<open>curr_off\<close>, the handler leaves the device (memory and trace: no erase,
  no write) and the upload state unchanged, whatever the stack holds; when \<open>data\<close> is
  present, \<open>off\<close> is not \<open>SIZE_MAX\<close> and the secondary area of \<open>img_num\<close> opens, the
  reply is \<open>{rc: 0, off: curr_off}\<close>; when \<open>off\<close> is \<open>SIZE_MAX\<close> or the area does not
  open it is \<open>{rc: 3}\<close>. Without a \<open>data\<close> key the handler reads the uninitialised
  \<open>img_chunk_data\<close>: a null pointer there gives \<open>{rc: 3}\<close>, anything else is treated as
  data. Sending the request twice gives what sending it once gives.
\<close>

theorem bs_upload_replay_idempotent:
  assumes "rq_off r = Some off" and "off \<noteq> 0" and "off \<noteq> curr_off s"
  shows "(\<exists>rp. bs_upload cfg img_chunk_data0 (Some r) s w = Inr (rp, s, w)) \<and>
         ((rq_data r \<noteq> None \<or> img_chunk_data0 \<noteq> None) \<and> off \<noteq> SIZE_MAX \<and>
          flash_area_open cfg
            (flash_area_id_from_multi_image_slot cfg (to_int (img_num s)) 1) \<noteq> None
          \<longrightarrow> bs_upload cfg img_chunk_data0 (Some r) s w =
                Inr (\<lparr>reply_rc = 0, reply_off = Some (curr_off s)\<rparr>, s, w)) \<and>
         ((rq_data r = None \<and> img_chunk_data0 = None) \<or> off = SIZE_MAX \<or>
          flash_area_open cfg
            (flash_area_id_from_multi_image_slot cfg (to_int (img_num s)) 1) = None
          \<longrightarrow> bs_upload cfg img_chunk_data0 (Some r) s w =
                Inr (\<lparr>reply_rc = MGMT_ERR_EINVAL, reply_off = None\<rparr>, s, w)) \<and>
         upload_run cfg [(img_chunk_data0, Some r), (img_chunk_data1, Some r)] s w =
           upload_run cfg [(img_chunk_data0, Some r)] s w"
proof -
  have unchanged: "\<exists>rp. bs_upload cfg junk (Some r) s w = Inr (rp, s, w)" for junk
    using assms
    by (auto simp: bs_upload_def upload_target_def upload_next_def upload_out_def Let_def
          split: option.splits)
  have replay: "bs_upload cfg img_chunk_data0 (Some r) s w =
      Inr (\<lparr>reply_rc = 0, reply_off = Some (curr_off s)\<rparr>, s, w)"
    if "rq_data r \<noteq> None \<or> img_chunk_data0 \<noteq> None" "off \<noteq> SIZE_MAX"
       "flash_area_open cfg
          (flash_area_id_from_multi_image_slot cfg (to_int (img_num s)) 1) \<noteq> None"
    using assms that
    by (auto simp: bs_upload_def upload_target_def upload_next_def upload_out_def Let_def
          split: option.splits)
  have refused: "bs_upload cfg img_chunk_data0 (Some r) s w =
      Inr (\<lparr>reply_rc = MGMT_ERR_EINVAL, reply_off = None\<rparr>, s, w)"
    if "(rq_data r = None \<and> img_chunk_data0 = None) \<or> off = SIZE_MAX \<or>
        flash_area_open cfg
          (flash_area_id_from_multi_image_slot cfg (to_int (img_num s)) 1) = None"
    using assms that
    by (auto simp: bs_upload_def upload_target_def upload_next_def upload_out_def Let_def
          MGMT_ERR_EINVAL_def split: option.splits)
  from unchanged [of img_chunk_data0] obtain rp where
    one: "bs_upload cfg img_chunk_data0 (Some r) s w = Inr (rp, s, w)" ..
  from unchanged [of img_chunk_data1] obtain rp' where
    two: "bs_upload cfg img_chunk_data1 (Some r) s w = Inr (rp', s, w)" ..
  have "upload_run cfg [(img_chunk_data0, Some r), (img_chunk_data1, Some r)] s w =
      upload_run cfg [(img_chunk_data0, Some r)] s w"
    by (simp add: one two)
  with unchanged [of img_chunk_data0] replay refused show ?thesis by blast
qed

theorem bs_upload_replay_idempotent_witness:
  "bs_upload demo_cfg None
     (Some \<lparr>rq_image = None, rq_data = Some [1, 2, 3, 4], rq_len = None, rq_off = Some 512\<rparr>)
     upload_init demo_world =
   Inr (\<lparr>reply_rc = 0, reply_off = Some 0\<rparr>, upload_init, demo_world)"
  using bs_upload_replay_idempotent
    [of "\<lparr>rq_image = None, rq_data = Some [1, 2, 3, 4], rq_len = None, rq_off = Some 512\<rparr>"
      512 upload_init demo_cfg None demo_world]
  by (simp add: demo_open_secondary SIZE_MAX_def) (simp add: upload_init_def)

text \<open>
  Claim C9: an upload request with \<open>off\<close> equal to 0, \<open>len\<close> equal to 0 and a \<open>data\<close>
  field, whose target area opens and is erased, reaches the progress computation
  \<open>curr_off * 100 / img_size\<close> with \<open>img_size = 0\<close>: no test of \<open>img_size\<close> precedes the
  division.
\<close>

theorem bs_upload_zero_size_divides_by_zero:
  assumes "rq_off r = Some 0" and "rq_len r = Some 0" and "rq_data r = Some d"
    and "flash_area_open cfg (flash_area_id_from_multi_image_slot cfg
           (to_int (case rq_image r of None \<Rightarrow> 0
                    | Some v \<Rightarrow> if v \<noteq> UINT_MAX then v else 0)) 1) = Some fap"
    and "fst (flash_area_erase cfg fap 0 (fa_size fap) w) = 0"
  shows "bs_upload cfg img_chunk_data0 (Some r) s w = Inl DivideByZero"
  using assms
  by (auto simp: bs_upload_def upload_target_def upload_first_def upload_write_def
        upload_flash_def SIZE_MAX_def flash_area_get_size_def Let_def
        split: option.splits prod.splits)

theorem bs_upload_zero_size_divides_by_zero_witness:
  "bs_upload demo_cfg None
     (Some \<lparr>rq_image = None, rq_data = Some [], rq_len = Some 0, rq_off = Some 0\<rparr>)
     upload_init demo_world = Inl DivideByZero"
  using bs_upload_zero_size_divides_by_zero
    [of "\<lparr>rq_image = None, rq_data = Some [], rq_len = Some 0, rq_off = Some 0\<rparr>" "[]"
      demo_cfg "secondary_img0 demo_cfg" demo_world None upload_init]
  by (simp add: demo_open_secondary)
     (simp add: fio_defs raw_defs int_defs secondary_img0_def demo_defs)

section \<open>The post-upload hook and the pending mark\<close>

lemma control_events_emit:
  "control_events (emit e w) = control_events w @ (if is_control e then [e] else [])"
  by (simp add: control_events_def emit_def)

lemma control_events_mem [simp]: "control_events (w\<lparr>mem := m\<rparr>) = control_events w"
  by (simp add: control_events_def)

lemma control_raw_read [simp]:
  "control_events (snd (bootloader_flash_read addr sz w)) = control_events w"
  by (simp add: bootloader_flash_read_def control_events_emit)

lemma control_raw_write [simp]:
  "control_events (snd (bootloader_flash_write addr bs w)) = control_events w"
  by (simp add: bootloader_flash_write_def control_events_emit)

lemma control_raw_erase [simp]:
  "control_events (snd (bootloader_flash_erase_range addr len w)) = control_events w"
  by (simp add: bootloader_flash_erase_range_def control_events_emit)

lemma control_read_remaining [simp]:
  "control_events (snd (snd (read_remaining a off br rem dest w))) = control_events w"
proof (induction a off br rem dest w rule: read_remaining.induct)
  case (1 a off br rem dest w)
  show ?case
  proof (cases "rem = 0")
    case True
    then show ?thesis by (subst read_remaining.simps) simp
  next
    case False
    obtain r w' where rd:
      "bootloader_flash_read (u32 (a + off)) (ALIGN_UP (min rem FLASH_BUFFER_SIZE) 4) w = (r, w')"
      by (cases "bootloader_flash_read (u32 (a + off)) (ALIGN_UP (min rem FLASH_BUFFER_SIZE) 4) w")
    have w': "control_events w' = control_events w"
      using control_raw_read [of "u32 (a + off)" "ALIGN_UP (min rem FLASH_BUFFER_SIZE) 4" w]
      by (simp add: rd)
    show ?thesis
    proof (cases r)
      case None
      with False rd w' show ?thesis
        by (subst read_remaining.simps) (simp add: Let_def)
    next
      case (Some read_data)
      with False rd w' "1.IH" [OF False refl rd [symmetric] Some] show ?thesis
        by (subst read_remaining.simps) (simp add: Let_def)
    qed
  qed
qed

lemma control_aligned_flash_read [simp]:
  "control_events (snd (snd (aligned_flash_read addr al dest sz w))) = control_events w"
  by (simp add: aligned_flash_read_def Let_def case_prod_unfold split: option.split)

lemma control_flash_area_read [simp]:
  "control_events (snd (snd (flash_area_read cfg fa off al dst len w))) = control_events w"
  by (simp add: flash_area_read_def Let_def case_prod_unfold)

lemma control_flash_area_write [simp]:
  "control_events (snd (flash_area_write cfg fa off src len w)) = control_events w"
  by (simp add: flash_area_write_def Let_def case_prod_unfold)

lemma control_flash_area_erase [simp]:
  "control_events (snd (flash_area_erase cfg fa off len w)) = control_events w"
  by (simp add: flash_area_erase_def Let_def case_prod_unfold)

lemma control_upload_flash:
  assumes "upload_flash cfg fap chunk s w = Inr (rc, n, w')"
  shows "control_events w' = control_events w"
proof -
  have "case upload_flash cfg fap chunk s w of
          Inl f \<Rightarrow> True
        | Inr r \<Rightarrow> control_events (snd (snd r)) = control_events w"
    by (simp add: upload_flash_def proccess_bar_print_def Let_def case_prod_unfold
          control_events_emit)
  with assms show ?thesis by simp
qed

lemma upload_finish_events:
  assumes "upload_finish cfg s w = Inr (rp, s', w')"
  shows "s' = s \<and>
    (if curr_off s \<noteq> img_size s then control_events w' = control_events w \<and> reply_rc rp = 0
     else if boot_serial_uploaded_hook cfg (img_num s) (img_size s) \<noteq> 0
     then control_events w' = control_events w @ [UploadedHook (img_num s) (img_size s)] \<and>
          reply_rc rp = boot_serial_uploaded_hook cfg (img_num s) (img_size s)
     else control_events w' =
            control_events w @ [UploadedHook (img_num s) (img_size s), SetPending 0 True] \<and>
          reply_rc rp = boot_set_pending_multi cfg 0 True)"
  using assms
  by (auto simp: upload_finish_def upload_out_def Let_def control_events_emit split: if_splits)


lemma upload_write_events:
  assumes "upload_write cfg fap chunk s1 w1 = Inr (rp, s', w')"
  shows "\<exists>evs. control_events w' = control_events w1 @ evs \<and>
     (curr_off s' \<noteq> img_size s' \<longrightarrow> evs = []) \<and>
     (curr_off s' = img_size s' \<longrightarrow>
        (evs = [] \<and> reply_rc rp = MGMT_ERR_EINVAL) \<or>
        (evs = [UploadedHook (img_num s') (img_size s')] \<and>
         boot_serial_uploaded_hook cfg (img_num s') (img_size s') \<noteq> 0 \<and>
         reply_rc rp = boot_serial_uploaded_hook cfg (img_num s') (img_size s')) \<or>
        (evs = [UploadedHook (img_num s') (img_size s'), SetPending 0 True] \<and>
         boot_serial_uploaded_hook cfg (img_num s') (img_size s') = 0 \<and>
         reply_rc rp = boot_set_pending_multi cfg 0 True))"
proof -
  from assms obtain rc n w2 where fl: "upload_flash cfg fap chunk s1 w1 = Inr (rc, n, w2)"
    by (auto simp: upload_write_def split: sum.splits)
  note keep = control_upload_flash [OF fl]
  show ?thesis
  proof (cases "rc = 0")
    case True
    with assms fl have "upload_finish cfg (s1\<lparr>curr_off := u32 (curr_off s1 + n)\<rparr>) w2 = Inr (rp, s', w')"
      by (simp add: upload_write_def)
    from upload_finish_events [OF this] keep show ?thesis
      by (auto split: if_splits)
  next
    case False
    with assms fl have "rp = \<lparr>reply_rc = MGMT_ERR_EINVAL, reply_off = None\<rparr>" "w' = w2"
      by (simp_all add: upload_write_def upload_out_def MGMT_ERR_EINVAL_def)
    with keep show ?thesis by simp
  qed
qed

lemma control_erase_result:
  "flash_area_erase cfg fa off len w = (rc, w1) \<Longrightarrow> control_events w1 = control_events w"
  using control_flash_area_erase [of cfg fa off len w] by simp

lemma upload_first_paths:
  assumes "upload_first cfg fap chunk sz s1 w = Inr (rp, s', w')"
  obtains (reject) "reply_rc rp = MGMT_ERR_EINVAL" and "control_events w' = control_events w"
  | (commit) s2 w1 where "upload_write cfg fap chunk s2 w1 = Inr (rp, s', w')"
      and "control_events w1 = control_events w"
proof -
  obtain rc w1 where er: "flash_area_erase cfg fap 0 (flash_area_get_size fap) w = (rc, w1)"
    by (cases "flash_area_erase cfg fap 0 (flash_area_get_size fap) w")
  note keep = control_erase_result [OF er]
  show ?thesis
  proof (cases "sz > flash_area_get_size fap \<or> rc \<noteq> 0")
    case True
    with assms er have "reply_rc rp = MGMT_ERR_EINVAL" "w' = w \<or> w' = w1"
      by (auto simp: upload_first_def upload_out_def Let_def MGMT_ERR_EINVAL_def split: if_splits)
    with keep reject show ?thesis by auto
  next
    case False
    with assms er have "upload_write cfg fap chunk (s1\<lparr>curr_off := 0, img_size := sz\<rparr>) w1 = Inr (rp, s', w')"
      by (simp add: upload_first_def Let_def)
    with keep commit show ?thesis by blast
  qed
qed

lemma upload_next_paths:
  assumes "upload_next cfg fap chunk off s1 w = Inr (rp, s', w')"
  obtains (reject) "reply_rc rp = MGMT_ERR_EINVAL" and "w' = w"
  | (replay) "off \<noteq> curr_off s1" and "s' = s1" and "w' = w" and "reply_rc rp = 0"
  | (commit) "upload_write cfg fap chunk s1 w = Inr (rp, s', w')"
  using assms
  by (auto simp: upload_next_def upload_out_def MGMT_ERR_EINVAL_def split: if_splits)

lemma bs_upload_paths:
  assumes "bs_upload cfg junk rq s w = Inr (rp, s', w')"
  obtains (reject) "reply_rc rp = MGMT_ERR_EINVAL" and "control_events w' = control_events w"
  | (replay) r off where "rq = Some r" and "rq_off r = Some off" and "off \<noteq> 0"
      and "off \<noteq> curr_off s" and "s' = s" and "w' = w" and "reply_rc rp = 0"
  | (commit) fap chunk s1 w1 where "upload_write cfg fap chunk s1 w1 = Inr (rp, s', w')"
      and "control_events w1 = control_events w"
proof (cases rq)
  case None
  with assms reject show ?thesis
    by (auto simp: bs_upload_def upload_out_def MGMT_ERR_EINVAL_def)
next
  case (Some r)
  note rq = this
  show ?thesis
  proof (cases "case rq_data r of None \<Rightarrow> junk | Some d \<Rightarrow> Some d")
    case None
    with assms rq reject show ?thesis
      by (auto simp: bs_upload_def upload_out_def MGMT_ERR_EINVAL_def Let_def)
  next
    case (Some chunk)
    note data = this
    show ?thesis
    proof (cases "rq_off r")
      case None
      with assms rq data reject show ?thesis
        by (auto simp: bs_upload_def upload_out_def MGMT_ERR_EINVAL_def Let_def)
    next
      case (Some off)
      note off = this
      define s1 where "s1 = upload_target s off (case rq_image r of None \<Rightarrow> UINT_MAX | Some v \<Rightarrow> v)"
      define sz where "sz = (case rq_len r of None \<Rightarrow> SIZE_MAX | Some v \<Rightarrow> v)"
      have s1_same: "s1 = s" if "off \<noteq> 0"
        using that by (simp add: s1_def upload_target_def)
      show ?thesis
      proof (cases "off = SIZE_MAX")
        case True
        with assms rq data off reject show ?thesis
          by (auto simp: bs_upload_def upload_out_def MGMT_ERR_EINVAL_def Let_def)
      next
        case False
        note valid = this
        show ?thesis
        proof (cases "flash_area_open cfg (flash_area_id_from_multi_image_slot cfg (to_int (img_num s1)) 1)")
          case None
          with assms rq data off valid reject show ?thesis
            by (auto simp: bs_upload_def upload_out_def MGMT_ERR_EINVAL_def Let_def s1_def)
        next
          case (Some fap)
          show ?thesis
          proof (cases "off = 0")
            case True
            with assms rq data off valid Some
            have "upload_first cfg fap chunk sz s1 w = Inr (rp, s', w')"
              by (simp add: bs_upload_def Let_def s1_def sz_def)
            then show ?thesis
              using reject commit by (cases rule: upload_first_paths) blast+
          next
            case False
            with assms rq data off valid Some
            have "upload_next cfg fap chunk off s1 w = Inr (rp, s', w')"
              by (simp add: bs_upload_def Let_def s1_def)
            then show ?thesis
            proof (cases rule: upload_next_paths)
              case reject
              with that(1) show ?thesis by simp
            next
              case replay
              with that(2) [of r off] rq off False s1_same show ?thesis by simp
            next
              case commit
              with that(3) [of fap chunk s1 w] show ?thesis by simp
            qed
          qed
        qed
      qed
    qed
  qed
qed

text \<open>
  Claim C8, amended. The hook and \<open>boot_set_pending_multi\<close> are reached only on the path
  that commits a chunk. For every upload request: if \<open>curr_off\<close> differs from \<open>img_size\<close>
  afterwards, neither is invoked. If \<open>curr_off = img_size\<close> afterwards, then either the
  request was rejected with \<open>EINVAL\<close> or was a replay (\<open>off\<close> nonzero and different from
  the cursor) acknowledged with nothing changed, and neither is invoked; or the hook is
  invoked once with the image number and size, and then: a nonzero hook result is the
  reply's \<open>rc\<close> and \<open>boot_set_pending_multi\<close> is not called, a zero result is followed
  by exactly one call \<open>boot_set_pending_multi(0, true)\<close>, whose result is the reply's
  \<open>rc\<close>.
\<close>

theorem bs_upload_hook_then_pending:
  assumes "bs_upload cfg img_chunk_data0 rq s w = Inr (rp, s', w')"
  shows "\<exists>evs. control_events w' = control_events w @ evs \<and>
     (curr_off s' \<noteq> img_size s' \<longrightarrow> evs = []) \<and>
     (curr_off s' = img_size s' \<longrightarrow>
        (evs = [] \<and>
         (reply_rc rp = MGMT_ERR_EINVAL \<or>
          (s' = s \<and> w' = w \<and> reply_rc rp = 0 \<and>
           (\<exists>r off. rq = Some r \<and> rq_off r = Some off \<and> off \<noteq> 0 \<and> off \<noteq> curr_off s)))) \<or>
        (evs = [UploadedHook (img_num s') (img_size s')] \<and>
         boot_serial_uploaded_hook cfg (img_num s') (img_size s') \<noteq> 0 \<and>
         reply_rc rp = boot_serial_uploaded_hook cfg (img_num s') (img_size s')) \<or>
        (evs = [UploadedHook (img_num s') (img_size s'), SetPending 0 True] \<and>
         boot_serial_uploaded_hook cfg (img_num s') (img_size s') = 0 \<and>
         reply_rc rp = boot_set_pending_multi cfg 0 True))"
  using assms
proof (cases rule: bs_upload_paths)
  case reject
  then show ?thesis by simp
next
  case (replay r off)
  then show ?thesis by simp
next
  case (commit fap chunk s1 w1)
  from upload_write_events [OF commit(1)] commit(2) show ?thesis
    by (elim exE) (rule_tac x = evs in exI, auto)
qed

theorem bs_upload_hook_then_pending_witness:
  "bs_upload demo_cfg None
     (Some \<lparr>rq_image = None, rq_data = Some [1, 2, 3, 4, 5, 6, 7, 8], rq_len = Some 8, rq_off = Some 0\<rparr>)
     upload_init demo_world =
   Inr (\<lparr>reply_rc = 0, reply_off = Some 8\<rparr>, \<lparr>img_num = 0, img_size = 8, curr_off = 8\<rparr>,
        \<lparr>mem = replicate 12288 0 @ [1, 2, 3, 4, 5, 6, 7, 8] @ replicate 4088 255 @ replicate 4096 0,
         trace = [RawErase 12288 4096, Progress 100, RawWrite 12288 [1, 2, 3, 4, 5, 6, 7, 8],
                  UploadedHook 0 8, SetPending 0 True]\<rparr>)"
proof -
  have run: "bs_upload demo_cfg None
     (Some \<lparr>rq_image = None, rq_data = Some [1, 2, 3, 4, 5, 6, 7, 8], rq_len = Some 8, rq_off = Some 0\<rparr>)
     upload_init demo_world =
   Inr (\<lparr>reply_rc = 0, reply_off = Some 8\<rparr>, \<lparr>img_num = 0, img_size = 8, curr_off = 8\<rparr>,
        \<lparr>mem = replicate 12288 0 @ [1, 2, 3, 4, 5, 6, 7, 8] @ replicate 4088 255 @ replicate 4096 0,
         trace = [RawErase 12288 4096, Progress 100, RawWrite 12288 [1, 2, 3, 4, 5, 6, 7, 8],
                  UploadedHook 0 8, SetPending 0 True]\<rparr>)"
    by (simp add: upload_defs fio_defs raw_defs int_defs registry_defs demo_defs Let_def)
  from bs_upload_hook_then_pending [OF run] show ?thesis by (simp add: run)
qed

text \<open>
  Claim C8, as stated, has the hook and \<open>set_pending\<close> invoked after every request that
  leaves \<open>curr_off = img_size\<close>. Once an 8-byte image is complete, a retransmitted chunk
  at offset 4 is acknowledged with \<open>{rc: 0, off: 8}\<close>; the cursor still equals the size
  and the device, trace included, is untouched.
\<close>

theorem bs_upload_replay_after_completion_counterexample:
  "bs_upload demo_cfg None
     (Some \<lparr>rq_image = None, rq_data = Some [5, 6, 7, 8], rq_len = None, rq_off = Some 4\<rparr>)
     \<lparr>img_num = 0, img_size = 8, curr_off = 8\<rparr> demo_world =
   Inr (\<lparr>reply_rc = 0, reply_off = Some 8\<rparr>, \<lparr>img_num = 0, img_size = 8, curr_off = 8\<rparr>, demo_world)"
  by (simp add: upload_defs registry_defs int_defs demo_cfg_def Let_def)


section \<open>The padded tail write\<close>

lemma u32_id: "n < 2 ^ 32 \<Longrightarrow> u32 n = n"
  by (simp add: u32_def)

lemma write_direct:
  assumes "fa_device_id fa = FLASH_DEVICE_INTERNAL_FLASH cfg"
    and "off + len \<le> fa_size fa" and "fa_off fa + fa_size fa \<le> length (mem w)"
    and "length (mem w) < 2 ^ 32"
    and "4 dvd fa_off fa" and "4 dvd off" and "4 dvd len" and "4 \<le> len" and "len \<le> length src"
  shows "flash_area_write cfg fa off src len w =
    (0, emit (RawWrite (fa_off fa + off) (take len src))
          (w\<lparr>mem := take (fa_off fa + off) (mem w) @ take len src @
                      drop (fa_off fa + off + len) (mem w)\<rparr>))"
proof -
  have 1: "u32 (off + len) = off + len" "u32 (fa_off fa + off) = fa_off fa + off"
    using assms by (simp_all add: u32_id)
  have 2: "(fa_off fa + off) mod 4 = 0" "len mod 4 = 0"
    using assms by (simp_all add: mod_eq_0_iff_dvd)
  have 3: "min (length src) len = len" using assms by simp
  show ?thesis
    using assms 1 2 3
    by (simp add: flash_area_write_def Let_def bootloader_flash_write_def)
qed

lemma read_word_keeps:
  assumes "4 dvd fa_off fa" and "4 dvd a"
  shows "length (fst (snd (flash_area_read cfg fa a True [0, 0, 0, 0] 4 w))) = 4"
    and "mem (snd (snd (flash_area_read cfg fa a True [0, 0, 0, 0] 4 w))) = mem w"
proof -
  have "4 dvd fa_off fa + a" using assms by simp
  then have "4 dvd (fa_off fa + a) mod 2 ^ 32"
    by (simp add: dvd_mod_iff)
  then have al: "u32 (fa_off fa + a) mod 4 = 0"
    by (simp add: u32_def mod_eq_0_iff_dvd)
  show "length (fst (snd (flash_area_read cfg fa a True [0, 0, 0, 0] 4 w))) = 4"
    using al
    by (simp add: flash_area_read_def aligned_flash_read_def bootloader_flash_read_def Let_def
          IS_ALIGNED_def ALIGN_OFFSET_def memcpy_at_def emit_def)
  show "mem (snd (snd (flash_area_read cfg fa a True [0, 0, 0, 0] 4 w))) = mem w"
    using al
    by (simp add: flash_area_read_def aligned_flash_read_def bootloader_flash_read_def Let_def
          IS_ALIGNED_def ALIGN_OFFSET_def memcpy_at_def emit_def)
qed


lemma write_short:
  assumes "fa_device_id fa = FLASH_DEVICE_INTERNAL_FLASH cfg"
    and "off + 4 \<le> fa_size fa" and "fa_off fa + fa_size fa \<le> length (mem w)"
    and "length (mem w) < 2 ^ 32"
    and "4 dvd fa_off fa" and "4 dvd off" and "len < 4" and "len \<le> length src"
  shows "fst (flash_area_write cfg fa off src len w) = 0"
    and "length (mem (snd (flash_area_write cfg fa off src len w))) = length (mem w)"
proof -
  define a where "a = fa_off fa + off"
  obtain rc wd w' where rd: "flash_area_read cfg fa a True [0, 0, 0, 0] 4 w = (rc, wd, w')"
    by (cases "flash_area_read cfg fa a True [0, 0, 0, 0] 4 w")
  have "4 dvd a" using assms by (simp add: a_def)
  from read_word_keeps [OF assms(5) this, of cfg w] rd
  have wd: "length wd = 4" and w': "mem w' = mem w" by simp_all
  have 1: "u32 (off + len) = off + len" "u32 (fa_off fa + off) = a"
    using assms by (simp_all add: u32_id a_def)
  have 2: "a mod 4 = 0" using \<open>4 dvd a\<close> by (simp add: mod_eq_0_iff_dvd)
  have 3: "length (take 4 (memcpy_at wd 0 src len)) = 4"
    using wd assms by (simp add: memcpy_at_def)
  have 4: "a + 4 \<le> length (mem w)" using assms by (simp add: a_def)
  have eq: "flash_area_write cfg fa off src len w =
      (case bootloader_flash_write a (take 4 (memcpy_at wd 0 src len)) w' of
         (ok, w2) \<Rightarrow> (if \<not> ok then - 1 else 0, w2))"
    using assms 1 rd by (simp add: flash_area_write_def Let_def)
  show "fst (flash_area_write cfg fa off src len w) = 0"
    using 2 3 4 w' by (simp add: eq bootloader_flash_write_def)
  show "length (mem (snd (flash_area_write cfg fa off src len w))) = length (mem w)"
    using 2 3 4 w' by (simp add: eq bootloader_flash_write_def emit_def)
qed

lemma write_ok:
  assumes "fa_device_id fa = FLASH_DEVICE_INTERNAL_FLASH cfg"
    and "off + max len 4 \<le> fa_size fa" and "fa_off fa + fa_size fa \<le> length (mem w)"
    and "length (mem w) < 2 ^ 32"
    and "4 dvd fa_off fa" and "4 dvd off" and "4 dvd len" and "len \<le> length src"
  shows "fst (flash_area_write cfg fa off src len w) = 0"
    and "length (mem (snd (flash_area_write cfg fa off src len w))) = length (mem w)"
proof -
  show "fst (flash_area_write cfg fa off src len w) = 0"
  proof (cases "len < 4")
    case True
    with assms show ?thesis by (intro write_short) simp_all
  next
    case False
    with assms show ?thesis by (subst write_direct) simp_all
  qed
  show "length (mem (snd (flash_area_write cfg fa off src len w))) = length (mem w)"
  proof (cases "len < 4")
    case True
    with assms show ?thesis by (intro write_short) simp_all
  next
    case False
    with assms show ?thesis by (subst write_direct) (simp_all add: emit_def)
  qed
qed

lemma erase_ok:
  assumes "fa_device_id fa = FLASH_DEVICE_INTERNAL_FLASH cfg"
    and "fa_size fa mod FLASH_SECTOR_SIZE cfg = 0"
    and "fa_off fa + fa_size fa \<le> length (mem w)" and "length (mem w) < 2 ^ 32"
  shows "fst (flash_area_erase cfg fa 0 (fa_size fa) w) = 0"
    and "length (mem (snd (flash_area_erase cfg fa 0 (fa_size fa) w))) = length (mem w)"
  using assms
  by (simp_all add: flash_area_erase_def bootloader_flash_erase_range_def Let_def u32_id emit_def)


lemma raw_writes_emit:
  "raw_writes (emit e w) = raw_writes w @ (if is_raw_write e then [e] else [])"
  by (simp add: raw_writes_def emit_def)

lemma upload_flash_tail:
  assumes dev: "fa_device_id fap = FLASH_DEVICE_INTERNAL_FLASH cfg"
    and geom: "4 dvd fa_off fap" "4 dvd fa_size fap" "fa_off fap + fa_size fap \<le> length (mem w)"
      "length (mem w) < 2 ^ 32"
    and maxal: "4 \<le> BOOT_MAX_ALIGN cfg"
    and cur: "4 dvd curr_off s" "curr_off s + length chunk = img_size s"
      "img_size s \<le> fa_size fap"
    and tail: "length chunk mod 4 \<noteq> 0"
  shows "\<exists>w2. upload_flash cfg fap chunk s w = Inr (0, length chunk, w2) \<and>
      length (mem w2) = length (mem w) \<and>
      last (raw_writes w2) =
        RawWrite (fa_off fap + curr_off s + (length chunk - length chunk mod 4))
          (drop (length chunk - length chunk mod 4) chunk @
           replicate (4 - length chunk mod 4) 255) \<and>
      take 4 (drop (fa_off fap + curr_off s + (length chunk - length chunk mod 4)) (mem w2)) =
        drop (length chunk - length chunk mod 4) chunk @ replicate (4 - length chunk mod 4) 255"
proof -
  define rem0 where "rem0 = length chunk mod flash_area_align fap"
  define body where "body = length chunk - rem0"
  define rb where "rb = (if u32 (curr_off s + body + rem0) < img_size s then 0 else rem0)"
  define bar where "bar = (if to_int (u32 (curr_off s * 100) div img_size s) \<noteq>
                              to_int (u32 (u32 (curr_off s + body) * 100) div img_size s)
                           then proccess_bar_print
                                  (to_int (u32 (u32 (curr_off s + body) * 100) div img_size s))
                                  100 w
                           else Inr w)"
  define wbs where "wbs = memcpy_at (replicate (BOOT_MAX_ALIGN cfg) (flash_area_erased_val fap))
                            0 (drop body chunk) rb"
  have shape: "upload_flash cfg fap chunk s w =
      (if img_size s = 0 then Inl DivideByZero
       else
         (case bar of
            Inl f \<Rightarrow> Inl f
          | Inr w0 \<Rightarrow>
              (case flash_area_write cfg fap (curr_off s) chunk body w0 of
                 (rc1, w1) \<Rightarrow>
                   (case (if rc1 = 0 \<and> rb \<noteq> 0
                          then flash_area_write cfg fap (u32 (curr_off s + body)) wbs
                                 (flash_area_align fap) w1
                          else (rc1, w1)) of
                      (rc2, w2) \<Rightarrow> Inr (rc2, body + rb, w2)))))"
    by (simp only: upload_flash_def Let_def rem0_def body_def rb_def bar_def wbs_def)
  define word where "word = drop body chunk @ replicate (4 - rem0) (255 :: byte)"
  define addr where "addr = fa_off fap + curr_off s + body"
  have rem0: "rem0 = length chunk mod 4" by (simp add: rem0_def flash_area_align_def)
  have rem: "0 < rem0" "rem0 < 4" "body + rem0 = length chunk" "4 dvd body"
    using tail by (simp_all add: rem0 body_def dvd_minus_mod)
  have pos: "img_size s \<noteq> 0" using cur rem by simp
  have small: "curr_off s + length chunk < 2 ^ 32" using cur geom by simp
  have u: "u32 (curr_off s + body + rem0) = img_size s" "u32 (curr_off s + body) = curr_off s + body"
    using small cur rem by (simp_all add: u32_id add.assoc)
  have rb: "rb = rem0" by (simp add: rb_def u)
  have fit: "curr_off s + body + 4 \<le> fa_size fap"
  proof -
    have "4 dvd curr_off s + body" using cur rem by simp
    moreover have "curr_off s + body + rem0 \<le> fa_size fap" using cur rem by simp
    ultimately show ?thesis using geom(2) rem(1) by presburger
  qed
  have "u32 (u32 (curr_off s + body) * 100) \<le> (curr_off s + body) * 100"
    by (simp add: u u32_def)
  also have "\<dots> \<le> 100 * img_size s" using cur rem by simp
  finally have "u32 (u32 (curr_off s + body) * 100) div img_size s \<le> 100 * img_size s div img_size s"
    by (rule div_le_mono)
  then have idx: "u32 (u32 (curr_off s + body) * 100) div img_size s \<le> 100"
    using pos by simp
  then have "0 \<le> to_int (u32 (u32 (curr_off s + body) * 100) div img_size s)"
    and "to_int (u32 (u32 (curr_off s + body) * 100) div img_size s) \<le> 100"
    by (simp_all add: to_int_def)
  then have "\<exists>w0. bar = Inr w0 \<and> mem w0 = mem w"
    by (simp add: bar_def proccess_bar_print_def emit_def)
  then obtain w0 where bar: "bar = Inr w0" and mem0: "mem w0 = mem w"
    by blast
  obtain rc1 w1 where first: "flash_area_write cfg fap (curr_off s) chunk body w0 = (rc1, w1)"
    by (cases "flash_area_write cfg fap (curr_off s) chunk body w0")
  have "fst (flash_area_write cfg fap (curr_off s) chunk body w0) = 0"
    and "length (mem (snd (flash_area_write cfg fap (curr_off s) chunk body w0))) = length (mem w0)"
    using dev geom cur rem fit by (intro write_ok; simp add: mem0)+
  with first have rc1: "rc1 = 0" and len1: "length (mem w1) = length (mem w)"
    by (simp_all add: mem0)
  have tl: "length (drop body chunk) = rem0" using rem by auto
  then have "wbs = drop body chunk @ replicate (BOOT_MAX_ALIGN cfg - rem0) 255"
    by (simp add: wbs_def memcpy_at_def rb flash_area_erased_val_def)
  then have wbs: "take 4 wbs = word" "4 \<le> length wbs"
    using tl maxal rem by (simp_all add: word_def min_def)
  have wlen: "length word = 4" using rem tl by (simp add: word_def)
  define w2 where "w2 = emit (RawWrite addr word)
      (w1\<lparr>mem := take addr (mem w1) @ word @ drop (addr + 4) (mem w1)\<rparr>)"
  have "flash_area_write cfg fap (curr_off s + body) wbs 4 w1 =
      (0, emit (RawWrite (fa_off fap + (curr_off s + body)) (take 4 wbs))
            (w1\<lparr>mem := take (fa_off fap + (curr_off s + body)) (mem w1) @ take 4 wbs @
                        drop (fa_off fap + (curr_off s + body) + 4) (mem w1)\<rparr>))"
    using dev geom cur rem fit len1 wbs by (intro write_direct) simp_all
  then have second: "flash_area_write cfg fap (curr_off s + body) wbs 4 w1 = (0, w2)"
    by (simp add: w2_def addr_def wbs add.assoc)
  have "upload_flash cfg fap chunk s w = Inr (0, length chunk, w2)"
    using pos rem first rc1 second
    by (simp add: shape bar rb u flash_area_align_def)
  moreover have "length (mem w2) = length (mem w)"
    using len1 wlen fit geom by (simp add: w2_def emit_def addr_def)
  moreover have "last (raw_writes w2) = RawWrite addr word"
    by (simp add: w2_def raw_writes_emit)
  moreover have "take 4 (drop addr (mem w2)) = word"
    using len1 wlen fit geom by (simp add: w2_def emit_def addr_def)
  ultimately show ?thesis
    unfolding addr_def word_def body_def rem0 by blast
qed


lemma upload_finish_keeps:
  "\<exists>rp w'. upload_finish cfg s w = Inr (rp, s, w') \<and> mem w' = mem w \<and>
      raw_writes w' = raw_writes w"
  by (simp add: upload_finish_def upload_out_def Let_def emit_def raw_writes_def)

lemma upload_write_tail:
  assumes dev: "fa_device_id fap = FLASH_DEVICE_INTERNAL_FLASH cfg"
    and geom: "4 dvd fa_off fap" "4 dvd fa_size fap" "fa_off fap + fa_size fap \<le> length (mem w)"
      "length (mem w) < 2 ^ 32"
    and maxal: "4 \<le> BOOT_MAX_ALIGN cfg"
    and cur: "4 dvd curr_off s" "curr_off s + length chunk = img_size s"
      "img_size s \<le> fa_size fap"
    and tail: "length chunk mod 4 \<noteq> 0"
  shows "\<exists>rp w'. upload_write cfg fap chunk s w = Inr (rp, s\<lparr>curr_off := img_size s\<rparr>, w') \<and>
      last (raw_writes w') =
        RawWrite (fa_off fap + curr_off s + (length chunk - length chunk mod 4))
          (drop (length chunk - length chunk mod 4) chunk @
           replicate (4 - length chunk mod 4) 255) \<and>
      take 4 (drop (fa_off fap + curr_off s + (length chunk - length chunk mod 4)) (mem w')) =
        drop (length chunk - length chunk mod 4) chunk @ replicate (4 - length chunk mod 4) 255"
proof -
  from upload_flash_tail [OF assms] obtain w2 where
    fl: "upload_flash cfg fap chunk s w = Inr (0, length chunk, w2)"
    and lw: "last (raw_writes w2) =
        RawWrite (fa_off fap + curr_off s + (length chunk - length chunk mod 4))
          (drop (length chunk - length chunk mod 4) chunk @
           replicate (4 - length chunk mod 4) 255)"
    and tk: "take 4 (drop (fa_off fap + curr_off s + (length chunk - length chunk mod 4)) (mem w2)) =
        drop (length chunk - length chunk mod 4) chunk @ replicate (4 - length chunk mod 4) 255"
    by blast
  have "u32 (curr_off s + length chunk) = img_size s"
    using cur geom by (simp add: u32_id)
  then have "upload_write cfg fap chunk s w = upload_finish cfg (s\<lparr>curr_off := img_size s\<rparr>) w2"
    by (simp add: upload_write_def fl)
  with upload_finish_keeps [of cfg "s\<lparr>curr_off := img_size s\<rparr>" w2] lw tk show ?thesis
    by auto
qed

text \<open>
  Claim C6: let an upload request carry the final chunk of an image (at offset 0 with
  \<open>len\<close> equal to the chunk length, or at the cursor with the chunk ending at
  \<open>img_size\<close>), its length not a multiple of 4, for an internal-flash area that lies on
  the device, 4-byte aligned (and sector-sized when it must be erased). Then the handler
  returns with the cursor at \<open>img_size\<close>, its last raw write is the single word made of
  the \<open>length mod 4\<close> residual bytes padded with \<open>0xFF\<close>, at the 4-aligned address of
  the residue, and the flash holds that word there. For 1025 bytes in one chunk the bytes
  1024 to 1027 of the area are the last byte and three \<open>0xFF\<close>.
\<close>

theorem bs_upload_unaligned_tail_padded:
  assumes data: "rq_data r = Some chunk" and off: "rq_off r = Some off" and valid: "off \<noteq> SIZE_MAX"
    and opn: "flash_area_open cfg (flash_area_id_from_multi_image_slot cfg
        (to_int (img_num (upload_target s off
           (case rq_image r of None \<Rightarrow> UINT_MAX | Some v \<Rightarrow> v)))) 1) = Some fap"
    and dev: "fa_device_id fap = FLASH_DEVICE_INTERNAL_FLASH cfg"
    and geom: "4 dvd fa_off fap" "4 dvd fa_size fap" "fa_off fap + fa_size fap \<le> length (mem w)"
      "length (mem w) < 2 ^ 32"
    and maxal: "4 \<le> BOOT_MAX_ALIGN cfg"
    and first: "off = 0 \<longrightarrow> rq_len r = Some (length chunk) \<and> length chunk \<le> fa_size fap \<and>
        fa_size fap mod FLASH_SECTOR_SIZE cfg = 0"
    and later: "off \<noteq> 0 \<longrightarrow> off = curr_off s \<and> 4 dvd curr_off s \<and>
        curr_off s + length chunk = img_size s \<and> img_size s \<le> fa_size fap"
    and tail: "length chunk mod 4 \<noteq> 0"
  shows "\<exists>rp s' w'. bs_upload cfg img_chunk_data0 (Some r) s w = Inr (rp, s', w') \<and>
      img_size s' = off + length chunk \<and> curr_off s' = img_size s' \<and>
      last (raw_writes w') =
        RawWrite (fa_off fap + off + (length chunk - length chunk mod 4))
          (drop (length chunk - length chunk mod 4) chunk @
           replicate (4 - length chunk mod 4) 255) \<and>
      take 4 (drop (fa_off fap + off + (length chunk - length chunk mod 4)) (mem w')) =
        drop (length chunk - length chunk mod 4) chunk @ replicate (4 - length chunk mod 4) 255"
proof (cases "off = 0")
  case True
  define s1 where "s1 = upload_target s off (case rq_image r of None \<Rightarrow> UINT_MAX | Some v \<Rightarrow> v)"
  define s2 where "s2 = s1\<lparr>curr_off := 0, img_size := length chunk\<rparr>"
  from True first have len: "rq_len r = Some (length chunk)" "length chunk \<le> fa_size fap"
    "fa_size fap mod FLASH_SECTOR_SIZE cfg = 0" by simp_all
  obtain rc w1 where er: "flash_area_erase cfg fap 0 (fa_size fap) w = (rc, w1)"
    by (cases "flash_area_erase cfg fap 0 (fa_size fap) w")
  with erase_ok [OF dev len(3) geom(3,4)] have rc: "rc = 0" and l1: "length (mem w1) = length (mem w)"
    by simp_all
  have "bs_upload cfg img_chunk_data0 (Some r) s w = upload_first cfg fap chunk (length chunk) s1 w"
    using data off valid opn True len by (simp add: bs_upload_def Let_def s1_def)
  also have "\<dots> = upload_write cfg fap chunk s2 w1"
    using len er rc by (simp add: upload_first_def Let_def flash_area_get_size_def s2_def)
  finally have eq: "bs_upload cfg img_chunk_data0 (Some r) s w = upload_write cfg fap chunk s2 w1" .
  have "\<exists>rp w'. upload_write cfg fap chunk s2 w1 = Inr (rp, s2\<lparr>curr_off := img_size s2\<rparr>, w') \<and>
      last (raw_writes w') =
        RawWrite (fa_off fap + curr_off s2 + (length chunk - length chunk mod 4))
          (drop (length chunk - length chunk mod 4) chunk @
           replicate (4 - length chunk mod 4) 255) \<and>
      take 4 (drop (fa_off fap + curr_off s2 + (length chunk - length chunk mod 4)) (mem w')) =
        drop (length chunk - length chunk mod 4) chunk @ replicate (4 - length chunk mod 4) 255"
    using dev geom maxal len tail l1 by (intro upload_write_tail) (simp_all add: s2_def)
  then show ?thesis
    using True by (auto simp: eq s2_def)
next
  case False
  with later have cur: "off = curr_off s" "4 dvd curr_off s"
    "curr_off s + length chunk = img_size s" "img_size s \<le> fa_size fap" by simp_all
  have s1: "upload_target s x t = s" if "x \<noteq> 0" for x t
    using that by (simp add: upload_target_def)
  have nz: "curr_off s \<noteq> 0" using False cur by simp
  have "u32 (curr_off s + length chunk) = img_size s"
    using cur geom by (simp add: u32_id)
  then have eq: "bs_upload cfg img_chunk_data0 (Some r) s w = upload_write cfg fap chunk s w"
    using data off valid opn nz cur
    by (simp add: bs_upload_def Let_def s1 upload_next_def)
  from upload_write_tail [OF dev geom maxal cur(2,3,4) tail] show ?thesis
    using cur by (auto simp: eq)
qed

theorem bs_upload_unaligned_tail_padded_witness:
  "\<exists>rp s' w'. bs_upload demo_cfg None
       (Some \<lparr>rq_image = None, rq_data = Some (replicate 1024 17 @ [171]), rq_len = Some 1025,
              rq_off = Some 0\<rparr>) upload_init demo_world = Inr (rp, s', w') \<and>
     img_size s' = 1025 \<and> curr_off s' = img_size s' \<and>
     last (raw_writes w') = RawWrite 13312 [171, 255, 255, 255] \<and>
     take 4 (drop 13312 (mem w')) = [171, 255, 255, 255]"
proof -
  have three: "replicate 3 x = [x, x, x]" for x :: byte
    by (simp add: numeral_3_eq_3)
  have hyps: "fa_device_id (secondary_img0 demo_cfg) = FLASH_DEVICE_INTERNAL_FLASH demo_cfg"
    "4 dvd fa_off (secondary_img0 demo_cfg)" "4 dvd fa_size (secondary_img0 demo_cfg)"
    "fa_off (secondary_img0 demo_cfg) + fa_size (secondary_img0 demo_cfg) \<le> length (mem demo_world)"
    "length (mem demo_world) < 2 ^ 32" "4 \<le> BOOT_MAX_ALIGN demo_cfg"
    "fa_size (secondary_img0 demo_cfg) mod FLASH_SECTOR_SIZE demo_cfg = 0"
    "fa_off (secondary_img0 demo_cfg) = 12288" "1025 \<le> fa_size (secondary_img0 demo_cfg)"
    "12288 + fa_size (secondary_img0 demo_cfg) \<le> length (mem demo_world)"
    "length (mem demo_world) < 4294967296"
    by (simp_all add: secondary_img0_def demo_defs)
  show ?thesis
    using bs_upload_unaligned_tail_padded [of "\<lparr>rq_image = None, rq_data = Some (replicate 1024 17 @ [171]), rq_len = Some 1025,
              rq_off = Some 0\<rparr>" "replicate 1024 17 @ [171]" 0 demo_cfg upload_init
              "secondary_img0 demo_cfg" demo_world None]
    by (simp add: demo_open_secondary SIZE_MAX_def hyps three)
qed


section \<open>Flash-area bounds and the partial-word write\<close>

lemma flash_area_out_of_bounds_no_wrap:
  assumes "off + len < 2 ^ 32" and "fa_size fa < off + len"
  shows "flash_area_read cfg fa off al dst len w = (- 1, dst, w)"
    and "flash_area_write cfg fa off src len w = (- 1, w)"
  using assms by (simp_all add: flash_area_read_def flash_area_write_def u32_def Let_def)

text \<open>
  Claim C3 says that a write of fewer than 4 bytes reads the word at area offset \<open>off\<close>
  and writes it back with its first \<open>len\<close> bytes replaced. The code passes the device
  address \<open>fa_off + off\<close> to \<open>flash_area_read\<close>, which expects an area offset, and
  ignores its return code. For the secondary slot (at \<open>0x3000\<close>, 4096 bytes) the read
  fails its bounds check, no raw read happens, and the three bytes after the written one
  are overwritten with the zeros of \<open>write_data\<close>.
\<close>

theorem flash_area_write_short_clobbers_word:
  "flash_area_write demo_cfg (secondary_img0 demo_cfg) 0 [170] 1
     \<lparr>mem = replicate 12288 0 @ [17, 34, 51, 68] @ replicate 8188 255, trace = []\<rparr> =
   (0, \<lparr>mem = replicate 12288 0 @ [170, 0, 0, 0] @ replicate 8188 255,
        trace = [RawWrite 12288 [170, 0, 0, 0]]\<rparr>)"
  by (simp add: fio_defs raw_defs int_defs secondary_img0_def demo_defs Let_def)

text \<open>
  Claim C4 says that read, write and erase fail without raw I/O whenever
  \<open>off + len\<close> exceeds the area size. \<open>flash_area_erase\<close> has no bounds check: erasing
  8192 bytes from offset 0 of the 4096-byte secondary slot erases the scratch area too.
  \<open>flash_area_read\<close> and \<open>flash_area_write\<close> compute \<open>off + len\<close> in 32 bits: with
  \<open>off = 0xFFFFFFFC\<close> and \<open>len = 8\<close> the sum wraps to 4, the check passes and the raw
  driver is called at \<open>0x2FFC\<close>, inside the primary slot.
\<close>

theorem flash_area_bounds_escape:
  "flash_area_erase demo_cfg (secondary_img0 demo_cfg) 0 8192 demo_world =
     (0, \<lparr>mem = replicate 12288 0 @ replicate 8192 255, trace = [RawErase 12288 8192]\<rparr>) \<and>
   flash_area_read demo_cfg (secondary_img0 demo_cfg) 4294967292 True (replicate 8 119) 8
       demo_world =
     (0, replicate 8 0, \<lparr>mem = replicate 20480 0, trace = [RawRead 12284 8]\<rparr>) \<and>
   flash_area_write demo_cfg (secondary_img0 demo_cfg) 4294967292 (replicate 8 119) 8
       demo_world =
     (0, \<lparr>mem = replicate 12284 0 @ replicate 8 119 @ replicate 8188 0,
          trace = [RawWrite 12284 (replicate 8 119)]\<rparr>)"
  by (simp add: fio_defs raw_defs int_defs secondary_img0_def demo_defs Let_def)

theorem flash_area_bounds_escape_witness:
  "fst (flash_area_erase demo_cfg (secondary_img0 demo_cfg) 0 8192 demo_world) = 0 \<and>
   trace (snd (flash_area_erase demo_cfg (secondary_img0 demo_cfg) 0 8192 demo_world)) =
     [RawErase 12288 8192]"
  using flash_area_bounds_escape by simp

section \<open>Setting an image pending by hash\<close>

text \<open>
  Claim C7 says that only slots that pass validation have their hash compared, and that
  the reply is \<open>{rc: 5}\<close> when no validated slot matches. In \<open>bs_set\<close> the validation
  and its \<open>continue\<close> are inside \<open>if (hdr.ih_magic == IMAGE_MAGIC)\<close>: a slot whose
  header lacks the magic is not validated and its hash is compared all the same
  (\<open>bs_list\<close> skips such a slot). With such a slot holding the requested hash the
  handler calls \<open>boot_set_pending_multi\<close>; with the magic present and the validation
  failing it answers \<open>ENOENT\<close>. Both keys are in the request, so the result is the same
  for every content of the stack.
\<close>

theorem bs_set_matches_unvalidated_slot:
  "bs_set demo_cfg
     (\<lambda>i. \<lparr>hook_hdr = None, validate_ok = False, tlv_begin_rc = 0,
            tlv_steps = [TlvEntry 64 32 16]\<rparr>)
     stk (Some \<lparr>sq_confirm = Some False, sq_hash = Some (replicate 32 90)\<rparr>)
     \<lparr>mem = replicate 12352 0 @ replicate 32 90 @ replicate 8096 0, trace = []\<rparr> =
   (SetImageList,
    \<lparr>mem = replicate 12352 0 @ replicate 32 90 @ replicate 8096 0,
     trace = [RawRead 12288 32, RawRead 12352 32, SetPending 0 False]\<rparr>) \<and>
   bs_set demo_cfg
     (\<lambda>i. \<lparr>hook_hdr = None, validate_ok = False, tlv_begin_rc = 0,
            tlv_steps = [TlvEntry 64 32 16]\<rparr>)
     stk (Some \<lparr>sq_confirm = Some False, sq_hash = Some (replicate 32 90)\<rparr>)
     \<lparr>mem = replicate 12288 0 @ [61, 184, 243, 150] @ replicate 60 0 @ replicate 32 90 @
             replicate 8096 0, trace = []\<rparr> =
   (SetRc 5,
    \<lparr>mem = replicate 12288 0 @ [61, 184, 243, 150] @ replicate 60 0 @ replicate 32 90 @
            replicate 8096 0, trace = [RawRead 12288 32]\<rparr>)"
  by (simp add: bs_set_def set_commit_def boot_serial_get_hash_def read_image_header_def
        ih_magic_def registry_defs fio_defs raw_defs int_defs demo_defs MGMT_ERR_EINVAL_def
        MGMT_ERR_ENOENT_def Let_def nth_append)

section \<open>SMP framing\<close>

lemmas hdr_defs = nh_op_def nh_len_def nh_group_def nh_seq_def nh_id_def
lemmas smp_consts = NMGR_OP_READ_def NMGR_OP_WRITE_def MGMT_GROUP_ID_OS_def MGMT_GROUP_ID_IMAGE_def
  NMGR_ID_RESET_def NMGR_ID_PARAMS_def NMGR_ID_STATE_def NMGR_ID_UPLOAD_def NMGR_ID_SLOT_INFO_def
  MGMT_ERR_ENOTSUP_def

lemma get16_less: "get16 buf i < 65536"
proof -
  have "unat (buf ! i) < 256" "unat (buf ! (i + 1)) < 256"
    using unsigned_less [of "buf ! i", where ?'a = nat] unsigned_less [of "buf ! (i + 1)", where ?'a = nat] by simp_all
  then show ?thesis by (simp add: get16_def)
qed

lemma length_put16 [simp]: "length (put16 buf i v) = length buf"
  by (simp add: put16_def)

lemma nth_put16_other: "j \<noteq> i \<Longrightarrow> j \<noteq> i + 1 \<Longrightarrow> put16 buf i v ! j = buf ! j"
  by (simp add: put16_def)

lemma drop_put16: "i + 2 \<le> n \<Longrightarrow> drop n (put16 buf i v) = drop n buf"
  by (simp add: put16_def drop_update_cancel)

lemma get16_put16: "i + 1 < length buf \<Longrightarrow> v < 65536 \<Longrightarrow> get16 (put16 buf i v) i = v"
proof -
  assume a: "i + 1 < length buf" "v < 65536"
  have 1: "unat (of_nat (v mod 256) :: byte) = v mod 256"
    by (simp add: unat_of_nat)
  have 2: "unat (of_nat (v div 256 mod 256) :: byte) = v div 256 mod 256"
    by (simp add: unat_of_nat)
  from a have "v div 256 < 256" by simp
  with a 1 2 show ?thesis
    by (simp add: get16_def put16_def)
qed

lemma ntohs_less: "ntohs v < 65536"
proof -
  have "v mod 256 \<le> 255" "v div 256 mod 256 \<le> 255" by simp_all
  then show ?thesis unfolding ntohs_def by linarith
qed

lemma htons_less: "htons v < 65536"
  using ntohs_less [of v] by (simp add: htons_def ntohs_def)

lemma route_fields:
  assumes "8 \<le> length buf" and "v < 65536"
  shows "nh_group (put16 buf 4 v) = v" and "nh_id (put16 buf 4 v) = nh_id buf"
    and "nh_op (put16 buf 4 v) = nh_op buf" and "nh_seq (put16 buf 4 v) = nh_seq buf"
    and "nh_len (put16 buf 4 v) = nh_len buf" and "drop 8 (put16 buf 4 v) = drop 8 buf"
proof -
  from assms show "nh_group (put16 buf 4 v) = v"
    unfolding nh_group_def by (intro get16_put16) simp_all
  show "nh_id (put16 buf 4 v) = nh_id buf" "nh_op (put16 buf 4 v) = nh_op buf"
    "nh_seq (put16 buf 4 v) = nh_seq buf" "nh_len (put16 buf 4 v) = nh_len buf"
    by (simp_all add: hdr_defs get16_def nth_put16_other)
  show "drop 8 (put16 buf 4 v) = drop 8 buf"
    by (simp add: drop_put16)
qed

text \<open>
  Claim C1, amended: the dispatcher returns without a call (no handler, no reply) exactly
  when the datagram is shorter than 8 bytes, or the operation is neither READ (0) nor
  WRITE (2), or the header's big-endian length field is less than the datagram length
  minus 8; every other datagram is dispatched on its big-endian group and its id, the
  call receiving the operation and the payload of \<open>length - 8\<close> bytes that follows the
  header, with the sequence byte left in the buffer.
\<close>

theorem boot_grp_route_drop_rule:
  "(boot_grp_route buf = None \<longleftrightarrow>
      length buf < 8 \<or> (nh_op buf \<noteq> NMGR_OP_READ \<and> nh_op buf \<noteq> NMGR_OP_WRITE) \<or>
      ntohs (nh_len buf) < length buf - 8) \<and>
   (\<forall>udp c. boot_grp_route buf = Some (udp, c) \<longrightarrow>
      c = boot_grp_switch (ntohs (nh_group buf)) (nh_id buf) (nh_op buf) (drop 8 buf) \<and>
      nh_seq udp = nh_seq buf)"
proof (cases "8 \<le> length buf")
  case True
  note f = route_fields [OF True ntohs_less]
  show ?thesis
    by (auto simp: boot_grp_route_def Let_def f)
next
  case False
  then show ?thesis by (simp add: boot_grp_route_def)
qed

theorem boot_grp_route_drop_rule_witness:
  "boot_grp_route [0, 0, 0, 0, 0, 0, 7, 6] = Some ([0, 0, 0, 0, 0, 0, 7, 6], Call_bs_params 0 [])"
  using boot_grp_route_drop_rule [of "[0, 0, 0, 0, 0, 0, 7, 6]"]
  by (simp add: boot_grp_route_def boot_grp_switch_def hdr_defs smp_consts get16_def put16_def ntohs_def)

text \<open>
  Claim C1, as stated, drops a datagram whose length field exceeds the payload and passes
  one whose length field is smaller. The code does the opposite on both inputs: an 8-byte
  datagram announcing 1 payload byte is dispatched to \<open>bs_params\<close>, and a 9-byte datagram
  announcing 0 payload bytes is dropped.
\<close>

theorem boot_grp_route_spec_rule_counterexample:
  "spec_drops [0, 0, 0, 1, 0, 0, 7, 6] \<and>
   boot_grp_route [0, 0, 0, 1, 0, 0, 7, 6] = Some ([0, 0, 0, 1, 0, 0, 7, 6], Call_bs_params 0 []) \<and>
   \<not> spec_drops [0, 0, 0, 0, 0, 0, 7, 6, 160] \<and>
   boot_grp_route [0, 0, 0, 0, 0, 0, 7, 6, 160] = None"
  by (simp add: spec_drops_def boot_grp_route_def boot_grp_switch_def hdr_defs smp_consts get16_def put16_def ntohs_def)

lemma send_frame:
  assumes "8 \<le> length udp"
  shows "length (boot_grp_send udp obuf) = length obuf + 8"
    and "boot_grp_send udp obuf ! 0 = udp ! 0"
    and "boot_grp_send udp obuf ! 1 = udp ! 1"
    and "boot_grp_send udp obuf ! 6 = udp ! 6"
    and "boot_grp_send udp obuf ! 7 = udp ! 7"
    and "nh_len (boot_grp_send udp obuf) = htons (length obuf mod 65536)"
    and "nh_group (boot_grp_send udp obuf) = htons (nh_group udp)"
    and "drop 8 (boot_grp_send udp obuf) = obuf"
proof -
  define b1 where "b1 = put16 udp 2 (htons (length obuf mod 65536))"
  define b2 where "b2 = put16 b1 4 (htons (nh_group b1))"
  have len: "length b1 = length udp" "length b2 = length udp"
    by (simp_all add: b1_def b2_def)
  have send: "boot_grp_send udp obuf = take 8 b2 @ obuf"
    using assms len by (simp add: boot_grp_send_def Let_def memcpy_at_def b1_def b2_def)
  have low: "boot_grp_send udp obuf ! j = b2 ! j" if "j < 8" for j
    using that assms len by (simp add: send nth_append)
  have g1: "nh_group b1 = nh_group udp"
    by (simp add: b1_def nh_group_def get16_def nth_put16_other)
  have l1: "get16 b1 2 = htons (length obuf mod 65536)"
    unfolding b1_def using assms by (intro get16_put16 htons_less) simp
  show "length (boot_grp_send udp obuf) = length obuf + 8"
    using assms len by (simp add: send)
  show "boot_grp_send udp obuf ! 0 = udp ! 0" "boot_grp_send udp obuf ! 1 = udp ! 1"
    "boot_grp_send udp obuf ! 6 = udp ! 6" "boot_grp_send udp obuf ! 7 = udp ! 7"
    by (simp_all add: low b2_def b1_def nth_put16_other)
  have "nh_len (boot_grp_send udp obuf) = get16 b2 2"
    by (simp add: nh_len_def get16_def low)
  also have "\<dots> = get16 b1 2"
    by (simp add: b2_def get16_def nth_put16_other)
  finally show "nh_len (boot_grp_send udp obuf) = htons (length obuf mod 65536)"
    by (simp add: l1)
  have "nh_group (boot_grp_send udp obuf) = get16 b2 4"
    by (simp add: nh_group_def get16_def low)
  also have "\<dots> = htons (nh_group b1)"
    unfolding b2_def using assms len by (intro get16_put16 htons_less) simp
  finally show "nh_group (boot_grp_send udp obuf) = htons (nh_group udp)"
    by (simp add: g1)
  show "drop 8 (boot_grp_send udp obuf) = obuf"
    using assms len by (simp add: send)
qed

lemma reset_frame:
  assumes "8 \<le> length udp"
  shows "length (bs_reset udp) = 8"
    and "bs_reset udp ! 0 = udp ! 0"
    and "bs_reset udp ! 1 = udp ! 1"
    and "bs_reset udp ! 6 = udp ! 6"
    and "bs_reset udp ! 7 = udp ! 7"
    and "nh_len (bs_reset udp) = 0"
    and "nh_group (bs_reset udp) = htons (nh_group udp)"
proof -
  define b1 where "b1 = put16 udp 2 0"
  define b2 where "b2 = put16 b1 4 (htons (nh_group b1))"
  have len: "length b1 = length udp" "length b2 = length udp"
    by (simp_all add: b1_def b2_def)
  have rs: "bs_reset udp = take 8 b2"
    by (simp add: bs_reset_def Let_def b1_def b2_def)
  have low: "bs_reset udp ! j = b2 ! j" if "j < 8" for j
    using that by (simp add: rs)
  have g1: "nh_group b1 = nh_group udp"
    by (simp add: b1_def nh_group_def get16_def nth_put16_other)
  have l1: "get16 b1 2 = 0"
    unfolding b1_def using assms by (intro get16_put16) simp_all
  show "length (bs_reset udp) = 8"
    using assms len by (simp add: rs)
  show "bs_reset udp ! 0 = udp ! 0" "bs_reset udp ! 1 = udp ! 1"
    "bs_reset udp ! 6 = udp ! 6" "bs_reset udp ! 7 = udp ! 7"
    by (simp_all add: low b2_def b1_def nth_put16_other)
  have "nh_len (bs_reset udp) = get16 b2 2"
    by (simp add: nh_len_def get16_def low)
  also have "\<dots> = get16 b1 2"
    by (simp add: b2_def get16_def nth_put16_other)
  finally show "nh_len (bs_reset udp) = 0"
    by (simp add: l1)
  have "nh_group (bs_reset udp) = get16 b2 4"
    by (simp add: nh_group_def get16_def low)
  also have "\<dots> = htons (nh_group b1)"
    unfolding b2_def using assms len by (intro get16_put16 htons_less) simp
  finally show "nh_group (bs_reset udp) = htons (nh_group udp)"
    by (simp add: g1)
qed


lemma route_Some:
  assumes "boot_grp_route buf = Some (udp, c)"
  shows "8 \<le> length buf" and "udp = put16 buf 4 (ntohs (nh_group buf))"
  using assms by (auto simp: boot_grp_route_def Let_def split: if_splits)

text \<open>
  Claim C10: the send path leaves bytes 0, 1, 6 (seq) and 7 (id) of the header as they
  are, stores the payload length in network order and swaps the group field back; hence
  every reply that the dispatcher sends for a request carries the request's seq and id
  bytes, its first two bytes and its group field as received, and the length of its own
  payload.
\<close>

theorem reply_header_keeps_seq_and_id:
  "(8 \<le> length udp \<longrightarrow>
      boot_grp_send udp obuf ! 0 = udp ! 0 \<and> boot_grp_send udp obuf ! 1 = udp ! 1 \<and>
      nh_seq (boot_grp_send udp obuf) = nh_seq udp \<and> nh_id (boot_grp_send udp obuf) = nh_id udp \<and>
      nh_len (boot_grp_send udp obuf) = htons (length obuf mod 65536) \<and>
      nh_group (boot_grp_send udp obuf) = htons (nh_group udp) \<and>
      drop 8 (boot_grp_send udp obuf) = obuf) \<and>
   (boot_grp_procces encoded buf = Some reply \<longrightarrow>
      8 \<le> length reply \<and> nh_seq reply = nh_seq buf \<and> nh_id reply = nh_id buf \<and>
      reply ! 0 = buf ! 0 \<and> reply ! 1 = buf ! 1 \<and> nh_group reply = nh_group buf \<and>
      ntohs (nh_len reply) = (length reply - 8) mod 65536)"
proof (intro conjI impI)
  assume "8 \<le> length udp"
  note f = send_frame [OF this, of obuf]
  show "boot_grp_send udp obuf ! 0 = udp ! 0" "boot_grp_send udp obuf ! 1 = udp ! 1"
    "nh_seq (boot_grp_send udp obuf) = nh_seq udp" "nh_id (boot_grp_send udp obuf) = nh_id udp"
    "nh_len (boot_grp_send udp obuf) = htons (length obuf mod 65536)"
    "nh_group (boot_grp_send udp obuf) = htons (nh_group udp)"
    "drop 8 (boot_grp_send udp obuf) = obuf"
    using f by (simp_all add: nh_seq_def nh_id_def)
next
  assume sent: "boot_grp_procces encoded buf = Some reply"
  then obtain udp c where r: "boot_grp_route buf = Some (udp, c)"
    by (auto simp: boot_grp_procces_def split: option.splits)
  note len = route_Some(1) [OF r] and udp = route_Some(2) [OF r]
  have ulen: "8 \<le> length udp" using len by (simp add: udp)
  have keep: "udp ! 0 = buf ! 0" "udp ! 1 = buf ! 1" "udp ! 6 = buf ! 6" "udp ! 7 = buf ! 7"
    by (simp_all add: udp nth_put16_other)
  have grp: "htons (nh_group udp) = nh_group buf"
    using route_fields(1) [OF len ntohs_less, of "nh_group buf"] get16_less [of buf 4]
    by (simp add: udp htons_def ntohs_def nh_group_def)
  have swap: "ntohs (htons v) = v" if "v < 65536" for v
    using that by (simp add: htons_def ntohs_def)
  from sent r consider "reply = bs_reset udp" | "reply = boot_grp_send udp (encoded c)"
    by (auto simp: boot_grp_procces_def split: call.splits)
  then have "8 \<le> length reply \<and> nh_seq reply = nh_seq buf \<and> nh_id reply = nh_id buf \<and>
      reply ! 0 = buf ! 0 \<and> reply ! 1 = buf ! 1 \<and> nh_group reply = nh_group buf \<and>
      ntohs (nh_len reply) = (length reply - 8) mod 65536"
  proof cases
    case 1
    note f = reset_frame [OF ulen]
    show ?thesis
      using f keep grp by (simp add: 1 nh_seq_def nh_id_def ntohs_def)
  next
    case 2
    note f = send_frame [OF ulen, of "encoded c"]
    show ?thesis
      using f keep grp by (simp add: 2 nh_seq_def nh_id_def swap)
  qed
  then show "8 \<le> length reply" "nh_seq reply = nh_seq buf" "nh_id reply = nh_id buf"
    "reply ! 0 = buf ! 0" "reply ! 1 = buf ! 1" "nh_group reply = nh_group buf"
    "ntohs (nh_len reply) = (length reply - 8) mod 65536"
    by simp_all
qed

theorem reply_header_keeps_seq_and_id_witness:
  "boot_grp_procces (\<lambda>c. [191, 255]) [0, 0, 0, 0, 0, 0, 7, 6] = Some [0, 0, 0, 2, 0, 0, 7, 6, 191, 255] \<and>
   nh_seq [0, 0, 0, 2, 0, 0, 7, 6, 191, 255] = nh_seq [0, 0, 0, 0, 0, 0, 7, 6]"
  using reply_header_keeps_seq_and_id [of "[0, 0, 0, 0, 0, 0, 7, 6]" "[191, 255]" "\<lambda>c. [191, 255]" "[0, 0, 0, 0, 0, 0, 7, 6]"
      "[0, 0, 0, 2, 0, 0, 7, 6, 191, 255]"]
  by (simp add: boot_grp_procces_def boot_grp_route_def boot_grp_switch_def boot_grp_send_def
        hdr_defs smp_consts get16_def put16_def ntohs_def htons_def memcpy_at_def)

end
